theory Spec2Isabelle
  imports Main "HOL-Library.Sublist" "HOL-Library.AList"
begin

section \<open>Python strings\<close>

text \<open>
  A Python \<open>str\<close> is carried as the list of the bytes of its UTF-8 encoding (a lone
  surrogate, which a \<open>str\<close> may hold, as its three-byte generalised encoding).  The
  string operations the scripts use are written out on that representation:
  \<open>str.strip()\<close> removes the white space of \<open>str.isspace\<close>, which is ten ASCII
  characters and nineteen characters beyond ASCII; \<open>str.split("\n")\<close>, \<open>in\<close> and
  \<open>==\<close> are exact on bytes; \<open>str.lower()\<close> maps the ASCII capitals and leaves every other
  byte alone (Python lower-cases other letters too, and no character outside ASCII
  lower-cases to \<open>y\<close>, \<open>e\<close> or \<open>s\<close>, the letters the scripts look for).
\<close>

datatype py_error = IndexError | AttributeError | KeyError | TypeError | ValueError | APIError

definition py_whitespace :: "string list" where
  "py_whitespace =
     [[CHR 0x09], [CHR 0x0A], [CHR 0x0B], [CHR 0x0C], [CHR 0x0D],
      [CHR 0x1C], [CHR 0x1D], [CHR 0x1E], [CHR 0x1F], [CHR 0x20],
      [CHR 0xC2, CHR 0x85], [CHR 0xC2, CHR 0xA0], [CHR 0xE1, CHR 0x9A, CHR 0x80],
      [CHR 0xE2, CHR 0x80, CHR 0x80], [CHR 0xE2, CHR 0x80, CHR 0x81],
      [CHR 0xE2, CHR 0x80, CHR 0x82], [CHR 0xE2, CHR 0x80, CHR 0x83],
      [CHR 0xE2, CHR 0x80, CHR 0x84], [CHR 0xE2, CHR 0x80, CHR 0x85],
      [CHR 0xE2, CHR 0x80, CHR 0x86], [CHR 0xE2, CHR 0x80, CHR 0x87],
      [CHR 0xE2, CHR 0x80, CHR 0x88], [CHR 0xE2, CHR 0x80, CHR 0x89],
      [CHR 0xE2, CHR 0x80, CHR 0x8A], [CHR 0xE2, CHR 0x80, CHR 0xA8],
      [CHR 0xE2, CHR 0x80, CHR 0xA9], [CHR 0xE2, CHR 0x80, CHR 0xAF],
      [CHR 0xE2, CHR 0x81, CHR 0x9F], [CHR 0xE3, CHR 0x80, CHR 0x80]]"

lemma py_whitespace_nonempty: "w \<in> set py_whitespace \<Longrightarrow> w \<noteq> []"
  by (auto simp: py_whitespace_def)

function lstrip :: "string \<Rightarrow> string" where
  "lstrip s = (case find (\<lambda>w. prefix w s) py_whitespace of
                 None \<Rightarrow> s
               | Some w \<Rightarrow> lstrip (drop (length w) s))"
  by pat_completeness auto
termination
proof (relation "measure length", goal_cases)
  case 1
  show ?case by simp
next
  case (2 s w)
  then have "w \<in> set py_whitespace" "prefix w s"
    by (auto simp: find_Some_iff)
  then have "w \<noteq> []" "length w \<le> length s"
    by (auto simp: py_whitespace_nonempty prefix_length_le)
  then show ?case by (cases w) auto
qed

function rstrip :: "string \<Rightarrow> string" where
  "rstrip s = (case find (\<lambda>w. suffix w s) py_whitespace of
                 None \<Rightarrow> s
               | Some w \<Rightarrow> rstrip (take (length s - length w) s))"
  by pat_completeness auto
termination
proof (relation "measure length", goal_cases)
  case 1
  show ?case by simp
next
  case (2 s w)
  then have "w \<in> set py_whitespace" "suffix w s"
    by (auto simp: find_Some_iff)
  then have "w \<noteq> []" "length w \<le> length s"
    by (auto simp: py_whitespace_nonempty suffix_length_le)
  then show ?case by (cases w) auto
qed

definition strip :: "string \<Rightarrow> string" where
  "strip s = rstrip (lstrip s)"

fun split :: "char \<Rightarrow> string \<Rightarrow> string list" where
  "split sep [] = [[]]"
| "split sep (c # cs) =
     (if c = sep then [] # split sep cs
      else (case split sep cs of [] \<Rightarrow> [[c]] | l # ls \<Rightarrow> (c # l) # ls))"

definition lower_char :: "char \<Rightarrow> char" where
  "lower_char c =
     (if 0x41 \<le> (of_char c :: nat) \<and> (of_char c :: nat) \<le> 0x5A
      then char_of ((of_char c :: nat) + 0x20) else c)"

definition lower :: "string \<Rightarrow> string" where
  "lower s = map lower_char s"

text \<open>\<open>sub in s\<close> on strings: \<open>sub\<close> occurs in \<open>s\<close> as a contiguous run.\<close>

fun py_in :: "string \<Rightarrow> string \<Rightarrow> bool" where
  "py_in sub [] = (sub = [])"
| "py_in sub (c # cs) = (prefix sub (c # cs) \<or> py_in sub cs)"

fun join :: "string \<Rightarrow> string list \<Rightarrow> string" where
  "join sep [] = []"
| "join sep [x] = x"
| "join sep (x # y # ys) = x @ sep @ join sep (y # ys)"

definition digit_char :: "nat \<Rightarrow> char" where
  "digit_char d = char_of (0x30 + d)"

function nat_str :: "nat \<Rightarrow> string" where
  "nat_str n = (if n < 10 then [digit_char n] else nat_str (n div 10) @ [digit_char (n mod 10)])"
  by pat_completeness auto
termination
  by (relation "measure id") auto

definition int_str :: "int \<Rightarrow> string" where
  "int_str i = (if i < 0 then CHR ''-'' # nat_str (nat (- i)) else nat_str (nat i))"

definition hex_digit :: "nat \<Rightarrow> char" where
  "hex_digit d = (if d < 10 then char_of (0x30 + d) else char_of (0x57 + d))"

definition hex2 :: "nat \<Rightarrow> string" where
  "hex2 n = [hex_digit (n div 16 mod 16), hex_digit (n mod 16)]"

definition hex4 :: "nat \<Rightarrow> string" where
  "hex4 n = hex2 (n div 256) @ hex2 n"

definition utf8_encode :: "nat \<Rightarrow> string" where
  "utf8_encode n =
     (if n < 0x80 then [char_of n]
      else if n < 0x800 then [char_of (0xC0 + n div 64), char_of (0x80 + n mod 64)]
      else if n < 0x10000 then
        [char_of (0xE0 + n div 4096), char_of (0x80 + n div 64 mod 64), char_of (0x80 + n mod 64)]
      else
        [char_of (0xF0 + n div 262144), char_of (0x80 + n div 4096 mod 64),
         char_of (0x80 + n div 64 mod 64), char_of (0x80 + n mod 64)])"

fun utf8_decode :: "string \<Rightarrow> nat list" where
  "utf8_decode [] = []"
| "utf8_decode (a # cs) =
     (if (of_char a :: nat) < 0xC0 then of_char a # utf8_decode cs
      else if (of_char a :: nat) < 0xE0 then
        (case cs of
           b # r \<Rightarrow> (of_char a mod 32 * 64 + of_char b mod 64) # utf8_decode r
         | [] \<Rightarrow> [of_char a])
      else if (of_char a :: nat) < 0xF0 then
        (case cs of
           b # c # r \<Rightarrow>
             (of_char a mod 16 * 4096 + of_char b mod 64 * 64 + of_char c mod 64) # utf8_decode r
         | _ \<Rightarrow> [of_char a])
      else
        (case cs of
           b # c # d # r \<Rightarrow>
             (of_char a mod 8 * 262144 + of_char b mod 64 * 4096 + of_char c mod 64 * 64
                + of_char d mod 64) # utf8_decode r
         | _ \<Rightarrow> [of_char a]))"

section \<open>JSON values, \<open>str()\<close>, \<open>repr()\<close> and \<open>json.dumps\<close>\<close>

text \<open>
  What \<open>json.loads\<close> returns: \<open>None\<close>, a \<open>bool\<close>, an \<open>int\<close>, a \<open>float\<close>, a \<open>str\<close>, a
  \<open>list\<close> or a \<open>dict\<close> with string keys (in insertion order).  A float is carried as
  the text it was read from: its value is never computed with, only printed back, and
  printing uses that text (Python prints the shortest decimal that reads back the same).
\<close>

datatype json =
    JNull
  | JBool bool
  | JInt int
  | JFloat string
  | JString string
  | JArray "json list"
  | JObject "(string \<times> json) list"

definition repr_char :: "char \<Rightarrow> char \<Rightarrow> string" where
  "repr_char quote c =
     (if c = quote \<or> c = CHR 0x5C then [CHR 0x5C, c]
      else if c = CHR 0x09 then [CHR 0x5C, CHR ''t'']
      else if c = CHR 0x0A then [CHR 0x5C, CHR ''n'']
      else if c = CHR 0x0D then [CHR 0x5C, CHR ''r'']
      else if (of_char c :: nat) < 0x20 \<or> (of_char c :: nat) = 0x7F
        then [CHR 0x5C, CHR ''x''] @ hex2 (of_char c)
      else [c])"

text \<open>\<open>repr\<close> of a \<open>str\<close>: single quotes, unless the string holds one and no double quote.\<close>

definition repr_str :: "string \<Rightarrow> string" where
  "repr_str s =
     (let quote = (if CHR 0x27 \<in> set s \<and> CHR 0x22 \<notin> set s then CHR 0x22 else CHR 0x27)
      in [quote] @ concat (map (repr_char quote) s) @ [quote])"

definition float_str :: "string \<Rightarrow> string" where
  "float_str lit =
     (if lit = ''NaN'' then ''nan'' else if lit = ''Infinity'' then ''inf''
      else if lit = ''-Infinity'' then ''-inf'' else lit)"

fun py_repr :: "json \<Rightarrow> string" where
  "py_repr JNull = ''None''"
| "py_repr (JBool b) = (if b then ''True'' else ''False'')"
| "py_repr (JInt i) = int_str i"
| "py_repr (JFloat lit) = float_str lit"
| "py_repr (JString s) = repr_str s"
| "py_repr (JArray xs) = ''['' @ join '', '' (map py_repr xs) @ '']''"
| "py_repr (JObject kvs) =
     ''{'' @ join '', '' (map (\<lambda>kv. repr_str (fst kv) @ '': '' @ py_repr (snd kv)) kvs) @ ''}''"

text \<open>\<open>str(x)\<close>, which an f-string applies to each \<open>{x}\<close>: a string as it is, all else as \<open>repr\<close>.\<close>

definition py_str :: "json \<Rightarrow> string" where
  "py_str x = (case x of JString s \<Rightarrow> s | _ \<Rightarrow> py_repr x)"

definition json_escape :: "nat \<Rightarrow> string" where
  "json_escape n =
     (if n = 0x22 then [CHR 0x5C, CHR 0x22]
      else if n = 0x5C then [CHR 0x5C, CHR 0x5C]
      else if n = 0x0A then [CHR 0x5C, CHR ''n'']
      else if n = 0x0D then [CHR 0x5C, CHR ''r'']
      else if n = 0x09 then [CHR 0x5C, CHR ''t'']
      else if n = 0x08 then [CHR 0x5C, CHR ''b'']
      else if n = 0x0C then [CHR 0x5C, CHR ''f'']
      else if 0x20 \<le> n \<and> n \<le> 0x7E then [char_of n]
      else if n < 0x10000 then [CHR 0x5C, CHR ''u''] @ hex4 n
      else [CHR 0x5C, CHR ''u''] @ hex4 (0xD800 + (n - 0x10000) div 1024 mod 1024)
         @ [CHR 0x5C, CHR ''u''] @ hex4 (0xDC00 + (n - 0x10000) mod 1024))"

text \<open>\<open>json.dumps\<close> of a string, with the default \<open>ensure_ascii=True\<close>.\<close>

definition encode_basestring_ascii :: "string \<Rightarrow> string" where
  "encode_basestring_ascii s = [CHR 0x22] @ concat (map json_escape (utf8_decode s)) @ [CHR 0x22]"

fun json_dumps :: "json \<Rightarrow> string" where
  "json_dumps JNull = ''null''"
| "json_dumps (JBool b) = (if b then ''true'' else ''false'')"
| "json_dumps (JInt i) = int_str i"
| "json_dumps (JFloat lit) = lit"
| "json_dumps (JString s) = encode_basestring_ascii s"
| "json_dumps (JArray xs) = ''['' @ join '', '' (map json_dumps xs) @ '']''"
| "json_dumps (JObject kvs) =
     ''{'' @ join '', ''
        (map (\<lambda>kv. encode_basestring_ascii (fst kv) @ '': '' @ json_dumps (snd kv)) kvs) @ ''}''"

section \<open>\<open>json.loads\<close>\<close>

text \<open>
  The decoder of the standard library, for a \<open>str\<close> argument and default options: white
  space is blank, tab, line feed and carriage return; strings are strict (no raw control
  character); \<open>NaN\<close>, \<open>Infinity\<close> and \<open>-Infinity\<close> are accepted; a repeated key keeps its
  first position and its last value; anything after the value but white space is an
  error.  Every failure is a \<open>JSONDecodeError\<close>, a \<open>ValueError\<close>.  The interpreter's
  limits (recursion depth, digits of an integer) are not part of the model.

  The recursion of the decoder is bounded by a counter (the first argument of
  \<open>scan_once\<close>); \<open>json_loads\<close> starts it above twice the length of the text, which the
  recursion cannot use up, since every second call consumes a character.
\<close>

definition is_json_ws :: "char \<Rightarrow> bool" where
  "is_json_ws c = (c = CHR 0x20 \<or> c = CHR 0x09 \<or> c = CHR 0x0A \<or> c = CHR 0x0D)"

definition skip_ws :: "string \<Rightarrow> string" where
  "skip_ws s = dropWhile is_json_ws s"

definition is_digit :: "char \<Rightarrow> bool" where
  "is_digit c = (0x30 \<le> (of_char c :: nat) \<and> (of_char c :: nat) \<le> 0x39)"

definition hex_val :: "char \<Rightarrow> nat option" where
  "hex_val c =
     (let n = (of_char c :: nat) in
      if 0x30 \<le> n \<and> n \<le> 0x39 then Some (n - 0x30)
      else if 0x41 \<le> n \<and> n \<le> 0x46 then Some (n - 0x37)
      else if 0x61 \<le> n \<and> n \<le> 0x66 then Some (n - 0x57)
      else None)"

definition decode_hex4 :: "char \<Rightarrow> char \<Rightarrow> char \<Rightarrow> char \<Rightarrow> nat option" where
  "decode_hex4 a b c d =
     (case (hex_val a, hex_val b, hex_val c, hex_val d) of
        (Some x, Some y, Some z, Some w) \<Rightarrow> Some (((x * 16 + y) * 16 + z) * 16 + w)
      | _ \<Rightarrow> None)"

definition simple_escape :: "char \<Rightarrow> char option" where
  "simple_escape e =
     (if e = CHR 0x22 then Some (CHR 0x22)
      else if e = CHR 0x5C then Some (CHR 0x5C)
      else if e = CHR ''/'' then Some (CHR ''/'')
      else if e = CHR ''b'' then Some (CHR 0x08)
      else if e = CHR ''f'' then Some (CHR 0x0C)
      else if e = CHR ''n'' then Some (CHR 0x0A)
      else if e = CHR ''r'' then Some (CHR 0x0D)
      else if e = CHR ''t'' then Some (CHR 0x09)
      else None)"

definition prepend :: "string \<Rightarrow> (string \<times> string) option \<Rightarrow> (string \<times> string) option" where
  "prepend p r = (case r of None \<Rightarrow> None | Some (s, rest) \<Rightarrow> Some (p @ s, rest))"

text \<open>
  \<open>scanstring\<close> reads a string after its opening quote and returns it with the text after
  the closing quote.  A \<open>\uXXXX\<close> escape of a high surrogate directly followed by one of a
  low surrogate is one character.
\<close>

fun scanstring :: "string \<Rightarrow> (string \<times> string) option" where
  "scanstring [] = None"
| "scanstring (c # cs) =
     (if c = CHR 0x22 then Some ([], cs)
      else if c = CHR 0x5C then
        (case cs of
           [] \<Rightarrow> None
         | e # cs1 \<Rightarrow>
             if e = CHR ''u'' then
               (case cs1 of
                  h1 # h2 # h3 # h4 # cs2 \<Rightarrow>
                    (case decode_hex4 h1 h2 h3 h4 of
                       None \<Rightarrow> None
                     | Some uni \<Rightarrow>
                         if 0xD800 \<le> uni \<and> uni \<le> 0xDBFF then
                           (case cs2 of
                              b # u # l1 # l2 # l3 # l4 # cs3 \<Rightarrow>
                                if b = CHR 0x5C \<and> u = CHR ''u'' then
                                  (case decode_hex4 l1 l2 l3 l4 of
                                     None \<Rightarrow> None
                                   | Some uni2 \<Rightarrow>
                                       if 0xDC00 \<le> uni2 \<and> uni2 \<le> 0xDFFF then
                                         prepend
                                           (utf8_encode
                                              (0x10000 + (uni - 0xD800) * 1024 + (uni2 - 0xDC00)))
                                           (scanstring cs3)
                                       else prepend (utf8_encode uni) (scanstring cs2))
                                else prepend (utf8_encode uni) (scanstring cs2)
                            | _ \<Rightarrow> prepend (utf8_encode uni) (scanstring cs2))
                         else prepend (utf8_encode uni) (scanstring cs2))
                | _ \<Rightarrow> None)
             else
               (case simple_escape e of
                  None \<Rightarrow> None
                | Some ch \<Rightarrow> prepend [ch] (scanstring cs1)))
      else if (of_char c :: nat) < 0x20 then None
      else prepend [c] (scanstring cs))"

definition digits_val :: "string \<Rightarrow> int" where
  "digits_val ds = foldl (\<lambda>acc d. acc * 10 + (int (of_char d) - 0x30)) 0 ds"

text \<open>
  The number at the head of the text, as the pattern
  \<open>-?(0|[1-9][0-9]*)(\.[0-9]+)?([eE][-+]?[0-9]+)?\<close> matches it: an \<open>int\<close> when it has
  neither fraction nor exponent, a \<open>float\<close> otherwise.
\<close>

definition match_number :: "string \<Rightarrow> (json \<times> string) option" where
  "match_number s =
     (let sign = (if s \<noteq> [] \<and> hd s = CHR ''-'' then ''-'' else []);
          s1 = drop (length sign) s;
          ipart = (if s1 \<noteq> [] \<and> hd s1 = CHR ''0'' then ''0''
                   else takeWhile is_digit s1);
          s2 = drop (length ipart) s1;
          frac = (if s2 \<noteq> [] \<and> hd s2 = CHR ''.'' \<and> takeWhile is_digit (tl s2) \<noteq> []
                  then CHR ''.'' # takeWhile is_digit (tl s2) else []);
          s3 = drop (length frac) s2;
          esign = (if s3 \<noteq> [] \<and> tl s3 \<noteq> [] \<and> (hd (tl s3) = CHR ''-'' \<or> hd (tl s3) = CHR ''+'')
                   then [hd (tl s3)] else []);
          edigits = takeWhile is_digit (drop (1 + length esign) s3);
          ex = (if s3 \<noteq> [] \<and> (hd s3 = CHR ''e'' \<or> hd s3 = CHR ''E'') \<and> edigits \<noteq> []
                then hd s3 # esign @ edigits else []);
          s4 = drop (length ex) s3
      in if ipart = [] then None
         else if frac = [] \<and> ex = [] then
           Some (JInt (if sign = [] then digits_val ipart else - digits_val ipart), s4)
         else Some (JFloat (sign @ ipart @ frac @ ex), s4))"

definition match_literal :: "string \<Rightarrow> (json \<times> string) option" where
  "match_literal s =
     (if prefix ''null'' s then Some (JNull, drop 4 s)
      else if prefix ''true'' s then Some (JBool True, drop 4 s)
      else if prefix ''false'' s then Some (JBool False, drop 5 s)
      else if prefix ''NaN'' s then Some (JFloat ''NaN'', drop 3 s)
      else if prefix ''Infinity'' s then Some (JFloat ''Infinity'', drop 8 s)
      else if prefix ''-Infinity'' s then Some (JFloat ''-Infinity'', drop 9 s)
      else match_number s)"

text \<open>\<open>dict(pairs)\<close>: a later pair with a key already present replaces its value in place.\<close>

definition dict_of_pairs :: "(string \<times> json) list \<Rightarrow> (string \<times> json) list" where
  "dict_of_pairs pairs = foldl (\<lambda>d kv. AList.update (fst kv) (snd kv) d) [] pairs"

fun scan_once :: "nat \<Rightarrow> string \<Rightarrow> (json \<times> string) option"
  and JSONArray :: "nat \<Rightarrow> string \<Rightarrow> json list \<Rightarrow> (json \<times> string) option"
  and JSONObject :: "nat \<Rightarrow> string \<Rightarrow> (string \<times> json) list \<Rightarrow> (json \<times> string) option"
where
  "scan_once 0 s = None"
| "scan_once (Suc n) [] = None"
| "scan_once (Suc n) (c # cs) =
     (if c = CHR 0x22 then
        (case scanstring cs of None \<Rightarrow> None | Some (str, rest) \<Rightarrow> Some (JString str, rest))
      else if c = CHR ''{'' then
        (case skip_ws cs of
           [] \<Rightarrow> None
         | d # rest \<Rightarrow> if d = CHR ''}'' then Some (JObject [], rest) else JSONObject n (d # rest) [])
      else if c = CHR ''['' then
        (case skip_ws cs of
           [] \<Rightarrow> None
         | d # rest \<Rightarrow> if d = CHR '']'' then Some (JArray [], rest) else JSONArray n (d # rest) [])
      else match_literal (c # cs))"
| "JSONArray 0 s values = None"
| "JSONArray (Suc n) s values =
     (case scan_once n s of
        None \<Rightarrow> None
      | Some (v, rest) \<Rightarrow>
          (case skip_ws rest of
             [] \<Rightarrow> None
           | d # rest' \<Rightarrow>
               if d = CHR '']'' then Some (JArray (values @ [v]), rest')
               else if d = CHR '','' then JSONArray n (skip_ws rest') (values @ [v])
               else None))"
| "JSONObject 0 s pairs = None"
| "JSONObject (Suc n) s pairs =
     (case s of
        [] \<Rightarrow> None
      | q # s1 \<Rightarrow>
          if q \<noteq> CHR 0x22 then None
          else
            (case scanstring s1 of
               None \<Rightarrow> None
             | Some (key, s2) \<Rightarrow>
                 (case skip_ws s2 of
                    [] \<Rightarrow> None
                  | colon # s3 \<Rightarrow>
                      if colon \<noteq> CHR '':'' then None
                      else
                        (case scan_once n (skip_ws s3) of
                           None \<Rightarrow> None
                         | Some (v, s4) \<Rightarrow>
                             (case skip_ws s4 of
                                [] \<Rightarrow> None
                              | d # s5 \<Rightarrow>
                                  if d = CHR ''}'' then
                                    Some (JObject (dict_of_pairs (pairs @ [(key, v)])), s5)
                                  else if d = CHR '','' then
                                    JSONObject n (skip_ws s5) (pairs @ [(key, v)])
                                  else None)))))"

definition json_loads :: "string \<Rightarrow> py_error + json" where
  "json_loads s =
     (if prefix [CHR 0xEF, CHR 0xBB, CHR 0xBF] s then Inl ValueError
      else
        (case scan_once (2 * length s + 2) (skip_ws s) of
           None \<Rightarrow> Inl ValueError
         | Some (obj, rest) \<Rightarrow> if skip_ws rest = [] then Inr obj else Inl ValueError))"

section \<open>The Language Model Gateway\<close>

text \<open>
  \<open>client.responses.create\<close> is the only call the scripts make to the outside.  A request
  holds the keyword arguments of the call; a response holds its \<open>id\<close> and its \<open>output\<close>
  list, whose items are messages with a \<open>content\<close> list, or tool calls, which have no
  \<open>content\<close>; a content part is a text or a refusal, which has no \<open>text\<close>.  The service is
  a function of the requests made so far and the present one, and it may raise.  The
  state threaded through the scripts is the list of the requests made, oldest first.
\<close>

datatype message_input = Prompt string | Messages "(string \<times> string) list"

record request =
  req_model :: string
  req_input :: message_input
  req_instructions :: string
  req_previous_response_id :: "string option"
  req_tools :: "(string \<times> string) list list option"

datatype content_part = OutputText string | Refusal string

datatype output_item = Message "content_part list" | ToolCall

record response =
  response_id :: string
  output_list :: "output_item list"

type_synonym gateway = "request list \<Rightarrow> request \<Rightarrow> py_error + response"

type_synonym 'a io = "request list \<Rightarrow> (py_error + 'a) \<times> request list"

definition io_return :: "'a \<Rightarrow> 'a io" where
  "io_return x log = (Inr x, log)"

definition io_lift :: "py_error + 'a \<Rightarrow> 'a io" where
  "io_lift r log = (r, log)"

definition io_bind :: "'a io \<Rightarrow> ('a \<Rightarrow> 'b io) \<Rightarrow> 'b io" where
  "io_bind m f log = (case m log of (Inl e, log') \<Rightarrow> (Inl e, log') | (Inr x, log') \<Rightarrow> f x log')"

definition responses_create :: "gateway \<Rightarrow> request \<Rightarrow> response io" where
  "responses_create client req log = (client log req, log @ [req])"

definition index :: "'a list \<Rightarrow> nat \<Rightarrow> py_error + 'a" where
  "index xs i = (if i < length xs then Inr (xs ! i) else Inl IndexError)"

definition content :: "output_item \<Rightarrow> py_error + content_part list" where
  "content item = (case item of Message parts \<Rightarrow> Inr parts | ToolCall \<Rightarrow> Inl AttributeError)"

definition text_of :: "content_part \<Rightarrow> py_error + string" where
  "text_of part = (case part of OutputText t \<Rightarrow> Inr t | Refusal r \<Rightarrow> Inl AttributeError)"

text \<open>\<open>resp.output[i].content[0].text\<close>\<close>

definition output_text :: "response \<Rightarrow> nat \<Rightarrow> py_error + string" where
  "output_text resp i =
     (case index (output_list resp) i of
        Inl e \<Rightarrow> Inl e
      | Inr item \<Rightarrow>
          (case content item of
             Inl e \<Rightarrow> Inl e
           | Inr parts \<Rightarrow> (case index parts 0 of Inl e \<Rightarrow> Inl e | Inr part \<Rightarrow> text_of part)))"

definition MODEL :: string where
  "MODEL = ''gpt-4.1''"

definition MODEL_MINI :: string where
  "MODEL_MINI = ''gpt-4.1-mini''"

definition TOOLS :: "(string \<times> string) list list" where
  "TOOLS = [[(''type'', ''web_search_preview'')]]"

section \<open>The stages of \<open>app.py\<close>\<close>

definition DEVELOPER_MESSAGE :: string where
  "DEVELOPER_MESSAGE =
     ''You are an expert Deep Researcher.'' @ [CHR 0x0A]
       @ ''You provide complete and in depth research to the user.''"

definition clarify_request :: "string \<Rightarrow> request" where
  "clarify_request topic =
     \<lparr>req_model = MODEL_MINI,
      req_input = Prompt
        (''Ask 5 numbered clarifying questions about the topic of research: '' @ topic @ ''. ''
         @ ''The goal of the questions is to understand the intented purpose of the research. ''
         @ ''Reply only with the questions.''),
      req_instructions = DEVELOPER_MESSAGE,
      req_previous_response_id = None,
      req_tools = None\<rparr>"

definition ask_clarifying_questions :: "gateway \<Rightarrow> string \<Rightarrow> (string list \<times> string) io" where
  "ask_clarifying_questions client topic =
     io_bind (responses_create client (clarify_request topic))
       (\<lambda>clarify.
          io_bind (io_lift (output_text clarify 0))
            (\<lambda>reply.
               io_return
                 ([strip q. q \<leftarrow> split (CHR 0x0A) reply, strip q \<noteq> []], response_id clarify)))"

text \<open>\<open>obj[key]\<close> with a string key: only a \<open>dict\<close> can answer, and only for a key it holds.\<close>

definition getitem :: "json \<Rightarrow> string \<Rightarrow> py_error + json" where
  "getitem obj key =
     (case obj of
        JObject kvs \<Rightarrow> (case map_of kvs key of None \<Rightarrow> Inl KeyError | Some v \<Rightarrow> Inr v)
      | _ \<Rightarrow> Inl TypeError)"

definition plan_format :: string where
  \<open>plan_format = ''Format: {"goal": "...", "queries": ["q1", ....]}''\<close>

definition plan_request :: "string \<Rightarrow> string list \<Rightarrow> string list \<Rightarrow> string \<Rightarrow> request" where
  "plan_request topic questions answers prev_id =
     \<lparr>req_model = MODEL,
      req_input = Prompt
        (''Using the user answers '' @ py_repr (JArray (map JString answers))
         @ '' to the '' @ py_repr (JArray (map JString questions))
         @ '', write a goal sentence and 5 web searches ''
         @ ''queries for the research about '' @ topic @ '' '' @ [CHR 0x0A]
         @ ''Output: A json list of the goal and the 5 web queries that will reach it.''
         @ [CHR 0x0A] @ plan_format),
      req_instructions = DEVELOPER_MESSAGE,
      req_previous_response_id = Some prev_id,
      req_tools = None\<rparr>"

definition create_plan ::
  "gateway \<Rightarrow> string \<Rightarrow> string list \<Rightarrow> string list \<Rightarrow> string \<Rightarrow> (json \<times> json \<times> string) io" where
  "create_plan client topic questions answers prev_id =
     io_bind (responses_create client (plan_request topic questions answers prev_id))
       (\<lambda>resp.
          io_bind (io_lift (output_text resp 0))
            (\<lambda>reply.
               io_bind (io_lift (json_loads reply))
                 (\<lambda>plan.
                    io_bind (io_lift (getitem plan ''goal''))
                      (\<lambda>goal.
                         io_bind (io_lift (getitem plan ''queries''))
                           (\<lambda>queries. io_return (goal, queries, response_id resp))))))"

text \<open>A search artifact is the dictionary \<open>{"query": ..., "resp_id": ...}\<close>.\<close>

record artifact =
  query :: json
  resp_id :: string

definition artifact_dict :: "artifact \<Rightarrow> json" where
  "artifact_dict a = JObject [(''query'', query a), (''resp_id'', JString (resp_id a))]"

definition dumps_collected :: "artifact list \<Rightarrow> string" where
  "dumps_collected collected = json_dumps (JArray (map artifact_dict collected))"

definition search_request :: "string \<Rightarrow> json \<Rightarrow> string \<Rightarrow> request" where
  "search_request instr q prev_id =
     \<lparr>req_model = MODEL,
      req_input = Prompt (''search: '' @ py_str q),
      req_instructions = instr,
      req_previous_response_id = Some prev_id,
      req_tools = Some TOOLS\<rparr>"

definition run_search :: "gateway \<Rightarrow> json \<Rightarrow> string \<Rightarrow> artifact io" where
  "run_search client q prev_id =
     io_bind (responses_create client (search_request DEVELOPER_MESSAGE q prev_id))
       (\<lambda>search_resp.
          io_bind (io_lift (output_text search_resp 1))
            (\<lambda>reply. io_return \<lparr>query = q, resp_id = reply\<rparr>))"

definition evaluate_request :: "string \<Rightarrow> json \<Rightarrow> artifact list \<Rightarrow> request" where
  "evaluate_request instr goal collected =
     \<lparr>req_model = MODEL,
      req_input = Messages
        [(''developer'', ''Research goal: '' @ py_str goal),
         (''assistant'', dumps_collected collected),
         (''user'', ''Does this information answer the research goal? Answer Yes or No only'')],
      req_instructions = instr,
      req_previous_response_id = None,
      req_tools = None\<rparr>"

definition evaluate_progress :: "gateway \<Rightarrow> json \<Rightarrow> artifact list \<Rightarrow> bool io" where
  "evaluate_progress client goal collected =
     io_bind (responses_create client (evaluate_request DEVELOPER_MESSAGE goal collected))
       (\<lambda>review.
          io_bind (io_lift (output_text review 0))
            (\<lambda>reply. io_return (py_in ''yes'' (lower reply))))"

text \<open>
  \<open>for q in queries\<close>: a list gives its elements, a string its characters, a dictionary its
  keys; nothing else that \<open>json.loads\<close> returns can be iterated.
\<close>

definition py_iter :: "json \<Rightarrow> py_error + json list" where
  "py_iter x =
     (case x of
        JArray xs \<Rightarrow> Inr xs
      | JString s \<Rightarrow> Inr (map (\<lambda>n. JString (utf8_encode n)) (utf8_decode s))
      | JObject kvs \<Rightarrow> Inr (map (\<lambda>kv. JString (fst kv)) kvs)
      | _ \<Rightarrow> Inl TypeError)"

text \<open>The inner loop of \<open>conduct_research\<close>: one search for each query, appended in order.\<close>

fun search_each :: "gateway \<Rightarrow> json list \<Rightarrow> string \<Rightarrow> artifact list \<Rightarrow> artifact list io" where
  "search_each client [] prev_id collected = io_return collected"
| "search_each client (q # qs) prev_id collected =
     io_bind (run_search client q prev_id)
       (\<lambda>a. search_each client qs prev_id (collected @ [a]))"

definition more_request :: "string \<Rightarrow> json \<Rightarrow> string \<Rightarrow> artifact list \<Rightarrow> request" where
  "more_request instr goal prev_id collected =
     \<lparr>req_model = MODEL,
      req_input = Messages
        [(''assistant'', ''Current data: '' @ dumps_collected collected),
         (''user'', ''This has not met the goal: '' @ py_str goal
                    @ ''. Write 5 other web searchs to achieve the goal'')],
      req_instructions = instr,
      req_previous_response_id = Some prev_id,
      req_tools = None\<rparr>"

text \<open>
  One pass through the body of \<open>for _ in itertools.count()\<close>, from the values of
  \<open>queries\<close> and \<open>collected\<close> at its head: it leaves by \<open>break\<close> with \<open>collected\<close>, or
  reaches the end of the body with the new values of the two variables.
\<close>

datatype loop_exit = Break "artifact list" | Continue json "artifact list"

definition conduct_research_body ::
  "gateway \<Rightarrow> json \<Rightarrow> string \<Rightarrow> json \<Rightarrow> artifact list \<Rightarrow> loop_exit io" where
  "conduct_research_body client goal prev_id queries collected =
     io_bind (io_lift (py_iter queries))
       (\<lambda>qs.
          io_bind (search_each client qs prev_id collected)
            (\<lambda>collected'.
               io_bind (evaluate_progress client goal collected')
                 (\<lambda>satisfied.
                    if satisfied then io_return (Break collected')
                    else
                      io_bind
                        (responses_create client
                           (more_request DEVELOPER_MESSAGE goal prev_id collected'))
                        (\<lambda>more.
                           io_bind (io_lift (output_text more 0))
                             (\<lambda>reply.
                                io_bind (io_lift (json_loads reply))
                                  (\<lambda>queries'. io_return (Continue queries' [])))))))"

partial_function (option) conduct_research_loop ::
  "gateway \<Rightarrow> json \<Rightarrow> string \<Rightarrow> json \<Rightarrow> artifact list \<Rightarrow> request list
     \<Rightarrow> ((py_error + artifact list) \<times> request list) option" where
  "conduct_research_loop client goal prev_id queries collected log =
     (case conduct_research_body client goal prev_id queries collected log of
        (Inl e, log') \<Rightarrow> Some (Inl e, log')
      | (Inr (Break result), log') \<Rightarrow> Some (Inr result, log')
      | (Inr (Continue queries' collected'), log') \<Rightarrow>
          conduct_research_loop client goal prev_id queries' collected' log')"

declare conduct_research_loop.simps [code]

definition conduct_research ::
  "gateway \<Rightarrow> json \<Rightarrow> json \<Rightarrow> string \<Rightarrow> request list
     \<Rightarrow> ((py_error + artifact list) \<times> request list) option" where
  "conduct_research client goal queries prev_id log =
     conduct_research_loop client goal prev_id queries [] log"

definition report_request :: "string \<Rightarrow> json \<Rightarrow> artifact list \<Rightarrow> request" where
  "report_request instr goal collected =
     \<lparr>req_model = MODEL,
      req_input = Messages
        [(''developer'',
          ''Write a complete and detail report about research goal: '' @ py_str goal @ '' ''
          @ ''Cite Sources inline using [n] and append a reference list mapping [n] to url''),
         (''assistant'', dumps_collected collected)],
      req_instructions = instr,
      req_previous_response_id = None,
      req_tools = None\<rparr>"

definition generate_final_report :: "gateway \<Rightarrow> json \<Rightarrow> artifact list \<Rightarrow> string io" where
  "generate_final_report client goal collected =
     io_bind (responses_create client (report_request DEVELOPER_MESSAGE goal collected))
       (\<lambda>report. io_lift (output_text report 0))"

section \<open>The stages of \<open>streamlit_app.py\<close>\<close>

text \<open>
  The second script has the same stages under other names, with its own instructions and
  prompts.  Where it uses a name of \<open>app.py\<close>, the name has the suffix \<open>_st\<close> here.
\<close>

definition developer_message :: string where
  "developer_message =
     [CHR 0x0A] @ ''You are an expert Deep Researcher.'' @ [CHR 0x0A]
       @ ''You provide complete and in depth research to the user.'' @ [CHR 0x0A]"

definition clarify_request_st :: "string \<Rightarrow> request" where
  "clarify_request_st topic =
     \<lparr>req_model = MODEL_MINI,
      req_input = Prompt
        ([CHR 0x0A]
         @ ''Ask 5 numbered clarifying questions about the topic of research: '' @ topic
         @ ''.'' @ [CHR 0x0A]
         @ ''The goal of the questions is to understand the intented purpose of the research.''
         @ [CHR 0x0A] @ ''Reply only with the questions.'' @ [CHR 0x0A]),
      req_instructions = developer_message,
      req_previous_response_id = None,
      req_tools = None\<rparr>"

definition ask_clarifying_questions_st :: "gateway \<Rightarrow> string \<Rightarrow> (string list \<times> string) io" where
  "ask_clarifying_questions_st client topic =
     io_bind (responses_create client (clarify_request_st topic))
       (\<lambda>clarify.
          io_bind (io_lift (output_text clarify 0))
            (\<lambda>reply.
               io_return
                 ([strip q. q \<leftarrow> split (CHR 0x0A) reply, strip q \<noteq> []], response_id clarify)))"

definition plan_request_st :: "string \<Rightarrow> string list \<Rightarrow> string list \<Rightarrow> string \<Rightarrow> request" where
  "plan_request_st topic questions answers prev_id =
     \<lparr>req_model = MODEL,
      req_input = Prompt
        ([CHR 0x0A] @ ''Using the user answers '' @ py_repr (JArray (map JString answers))
         @ '' to the '' @ py_repr (JArray (map JString questions))
         @ '', write a goal sentence and 5 web searches queries for the research about ''
         @ topic @ [CHR 0x0A]
         @ ''Output: A json list of the goal and the 5 web queries that will reach it.''
         @ [CHR 0x0A] @ plan_format @ [CHR 0x0A]),
      req_instructions = developer_message,
      req_previous_response_id = Some prev_id,
      req_tools = None\<rparr>"

definition generate_plan ::
  "gateway \<Rightarrow> string \<Rightarrow> string list \<Rightarrow> string list \<Rightarrow> string \<Rightarrow> (json \<times> json \<times> string) io" where
  "generate_plan client topic questions answers prev_id =
     io_bind (responses_create client (plan_request_st topic questions answers prev_id))
       (\<lambda>goal_and_queries.
          io_bind (io_lift (output_text goal_and_queries 0))
            (\<lambda>reply.
               io_bind (io_lift (json_loads reply))
                 (\<lambda>plan.
                    io_bind (io_lift (getitem plan ''goal''))
                      (\<lambda>goal.
                         io_bind (io_lift (getitem plan ''queries''))
                           (\<lambda>queries.
                              io_return (goal, queries, response_id goal_and_queries))))))"

definition run_search_st :: "gateway \<Rightarrow> json \<Rightarrow> string \<Rightarrow> artifact io" where
  "run_search_st client q prev_id =
     io_bind (responses_create client (search_request developer_message q prev_id))
       (\<lambda>web_search.
          io_bind (io_lift (output_text web_search 1))
            (\<lambda>reply. io_return \<lparr>query = q, resp_id = reply\<rparr>))"

definition evaluate :: "gateway \<Rightarrow> artifact list \<Rightarrow> json \<Rightarrow> bool io" where
  "evaluate client collected goal =
     io_bind (responses_create client (evaluate_request developer_message goal collected))
       (\<lambda>review.
          io_bind (io_lift (output_text review 0))
            (\<lambda>reply. io_return (py_in ''yes'' (lower reply))))"

fun search_each_st :: "gateway \<Rightarrow> json list \<Rightarrow> string \<Rightarrow> artifact list \<Rightarrow> artifact list io" where
  "search_each_st client [] prev_id collected = io_return collected"
| "search_each_st client (q # qs) prev_id collected =
     io_bind (run_search_st client q prev_id)
       (\<lambda>a. search_each_st client qs prev_id (collected @ [a]))"

definition perform_research_body ::
  "gateway \<Rightarrow> json \<Rightarrow> string \<Rightarrow> json \<Rightarrow> artifact list \<Rightarrow> loop_exit io" where
  "perform_research_body client goal prev_id queries collected =
     io_bind (io_lift (py_iter queries))
       (\<lambda>qs.
          io_bind (search_each_st client qs prev_id collected)
            (\<lambda>collected'.
               io_bind (evaluate client collected' goal)
                 (\<lambda>satisfied.
                    if satisfied then io_return (Break collected')
                    else
                      io_bind
                        (responses_create client
                           (more_request developer_message goal prev_id collected'))
                        (\<lambda>more_searches.
                           io_bind (io_lift (output_text more_searches 0))
                             (\<lambda>reply.
                                io_bind (io_lift (json_loads reply))
                                  (\<lambda>queries'. io_return (Continue queries' [])))))))"

partial_function (option) perform_research_loop ::
  "gateway \<Rightarrow> json \<Rightarrow> string \<Rightarrow> json \<Rightarrow> artifact list \<Rightarrow> request list
     \<Rightarrow> ((py_error + artifact list) \<times> request list) option" where
  "perform_research_loop client goal prev_id queries collected log =
     (case perform_research_body client goal prev_id queries collected log of
        (Inl e, log') \<Rightarrow> Some (Inl e, log')
      | (Inr (Break result), log') \<Rightarrow> Some (Inr result, log')
      | (Inr (Continue queries' collected'), log') \<Rightarrow>
          perform_research_loop client goal prev_id queries' collected' log')"

declare perform_research_loop.simps [code]

definition perform_research ::
  "gateway \<Rightarrow> json \<Rightarrow> json \<Rightarrow> string \<Rightarrow> request list
     \<Rightarrow> ((py_error + artifact list) \<times> request list) option" where
  "perform_research client goal queries prev_id log =
     perform_research_loop client goal prev_id queries [] log"

definition generate_report :: "gateway \<Rightarrow> json \<Rightarrow> artifact list \<Rightarrow> string io" where
  "generate_report client goal collected =
     io_bind (responses_create client (report_request developer_message goal collected))
       (\<lambda>report. io_lift (output_text report 0))"

section \<open>The two \<open>main\<close> functions\<close>

text \<open>
  One run of a script: what the user has entered in the widgets, the session state kept
  from the run before (the questions and the token of the Clarification stage, stored
  together), and what the run writes to the page.  A run ends at the end of the script, at
  \<open>st.stop()\<close>, or with an exception that nothing catches.
\<close>

record ui =
  secrets_key :: "string option"
  environ_key :: "string option"
  sidebar_key :: string
  topic_input :: string
  generate_button :: bool
  run_button :: bool
  answer_input :: "string \<Rightarrow> string \<Rightarrow> string"

datatype ui_event =
    Title string
  | Error string
  | Info string
  | Warning string
  | Subheader string
  | Success string
  | Markdown string

datatype run_status = Finished | Stopped | Raised py_error

type_synonym session_state = "(string list \<times> string) option"

definition read_answers :: "ui \<Rightarrow> string list \<Rightarrow> string list" where
  "read_answers u questions =
     map (\<lambda>iq. answer_input u (snd iq) (''answer_'' @ nat_str (fst iq))) (enumerate 0 questions)"

text \<open>The body of \<open>if st.button("Run Deep Research")\<close> in \<open>app.py\<close>.\<close>

definition run_deep_research ::
  "gateway \<Rightarrow> string \<Rightarrow> string list \<Rightarrow> string \<Rightarrow> string list \<Rightarrow> ui_event list \<Rightarrow> request list
     \<Rightarrow> (run_status \<times> ui_event list \<times> request list) option" where
  "run_deep_research client topic questions clarify_id answers events log =
     (if list_ex (\<lambda>a. strip a = []) answers then
        Some (Stopped, events @ [Warning ''Answer all questions before proceeding.''], log)
      else
        (case create_plan client topic questions answers clarify_id log of
           (Inl e, log1) \<Rightarrow> Some (Raised e, events, log1)
         | (Inr (goal, queries, goal_id), log1) \<Rightarrow>
             (case conduct_research client goal queries goal_id log1 of
                None \<Rightarrow> None
              | Some (Inl e, log2) \<Rightarrow>
                  Some (Raised e, events @ [Success (''Research Goal: '' @ py_str goal)], log2)
              | Some (Inr collected, log2) \<Rightarrow>
                  (case generate_final_report client goal collected log2 of
                     (Inl e, log3) \<Rightarrow>
                       Some (Raised e, events @ [Success (''Research Goal: '' @ py_str goal)], log3)
                   | (Inr report_md, log3) \<Rightarrow>
                       Some (Finished,
                             events @ [Success (''Research Goal: '' @ py_str goal),
                                       Markdown (''## '' @ [CHR 0xF0, CHR 0x9F, CHR 0x93, CHR 0x84] @ '' Final Report''),
                                       Markdown report_md],
                             log3)))))"

definition main ::
  "gateway \<Rightarrow> ui \<Rightarrow> session_state \<Rightarrow> request list
     \<Rightarrow> (run_status \<times> ui_event list \<times> session_state \<times> request list) option" where
  "main client u session log =
     (let events = [Title ([CHR 0xF0, CHR 0x9F, CHR 0x94, CHR 0x8D] @ '' Deep Research Assistant'')];
          api_key = (case secrets_key u of Some k \<Rightarrow> Some k | None \<Rightarrow> environ_key u)
      in if api_key = None \<or> api_key = Some [] then
           Some (Stopped,
                 events @ [Error (''OPENAI_API_KEY not found. Set it in Streamlit Secrets ''
                                  @ ''or as an environment variable.'')],
                 session, log)
         else if topic_input u = [] then Some (Stopped, events, session, log)
         else if generate_button u \<or> session \<noteq> None then
           (case (case session of
                    None \<Rightarrow> ask_clarifying_questions client (topic_input u) log
                  | Some stored \<Rightarrow> (Inr stored, log)) of
              (Inl e, log1) \<Rightarrow> Some (Raised e, events, session, log1)
            | (Inr (questions, clarify_id), log1) \<Rightarrow>
                if run_button u then
                  (case run_deep_research client (topic_input u) questions clarify_id
                          (read_answers u questions)
                          (events @ [Subheader ''Please answer the following questions:'']) log1 of
                     None \<Rightarrow> None
                   | Some (status, events', log2) \<Rightarrow>
                       Some (status, events', Some (questions, clarify_id), log2))
                else
                  Some (Finished, events @ [Subheader ''Please answer the following questions:''],
                        Some (questions, clarify_id), log1))
         else Some (Finished, events, session, log))"

text \<open>The body of \<open>if st.button("Run Deep Research")\<close> in \<open>streamlit_app.py\<close>.\<close>

definition run_deep_research_st ::
  "gateway \<Rightarrow> string \<Rightarrow> string list \<Rightarrow> string \<Rightarrow> string list \<Rightarrow> ui_event list \<Rightarrow> request list
     \<Rightarrow> (run_status \<times> ui_event list \<times> request list) option" where
  "run_deep_research_st client topic questions clarify_id answers events log =
     (if [] \<in> set answers then
        Some (Stopped,
              events @ [Warning ''Please answer all clarifying questions before proceeding.''],
              log)
      else
        (case generate_plan client topic questions answers clarify_id log of
           (Inl e, log1) \<Rightarrow> Some (Raised e, events, log1)
         | (Inr (goal, queries, goal_id), log1) \<Rightarrow>
             (case perform_research client goal queries goal_id log1 of
                None \<Rightarrow> None
              | Some (Inl e, log2) \<Rightarrow>
                  Some (Raised e, events @ [Success (''Research goal: '' @ py_str goal)], log2)
              | Some (Inr collected, log2) \<Rightarrow>
                  (case generate_report client goal collected log2 of
                     (Inl e, log3) \<Rightarrow>
                       Some (Raised e, events @ [Success (''Research goal: '' @ py_str goal)], log3)
                   | (Inr report_md, log3) \<Rightarrow>
                       Some (Finished,
                             events @ [Success (''Research goal: '' @ py_str goal),
                                       Markdown ''## Final Report'', Markdown report_md],
                             log3)))))"

definition main_st ::
  "gateway \<Rightarrow> ui \<Rightarrow> session_state \<Rightarrow> request list
     \<Rightarrow> (run_status \<times> ui_event list \<times> session_state \<times> request list) option" where
  "main_st client u session log =
     (let events = [Title ''Deep Research Assistant'']
      in if sidebar_key u = [] then
           Some (Stopped, events @ [Info ''Please enter your OpenAI API key to begin.''],
                 session, log)
         else if topic_input u = [] then Some (Stopped, events, session, log)
         else
           (case (if generate_button u
                  then (case ask_clarifying_questions_st client (topic_input u) log of
                          (Inl e, log1) \<Rightarrow> (Inl e, log1)
                        | (Inr stored, log1) \<Rightarrow> (Inr (Some stored), log1))
                  else (Inr session, log)) of
              (Inl e, log1) \<Rightarrow> Some (Raised e, events, session, log1)
            | (Inr None, log1) \<Rightarrow> Some (Finished, events, None, log1)
            | (Inr (Some (questions, clarify_id)), log1) \<Rightarrow>
                if run_button u then
                  (case run_deep_research_st client (topic_input u) questions clarify_id
                          (read_answers u questions)
                          (events @ [Subheader ''Clarifying Questions'']) log1 of
                     None \<Rightarrow> None
                   | Some (status, events', log2) \<Rightarrow>
                       Some (status, events', Some (questions, clarify_id), log2))
                else
                  Some (Finished, events @ [Subheader ''Clarifying Questions''],
                        Some (questions, clarify_id), log1)))"

section \<open>Gateways for the examples\<close>

text \<open>
  A gateway that gives the same reply to every request, and one that reads its replies
  from a list, the reply to a request being chosen by the number of requests made before.
\<close>

definition message_reply :: "string \<Rightarrow> string \<Rightarrow> response" where
  "message_reply i t = \<lparr>response_id = i, output_list = [Message [OutputText t]]\<rparr>"

definition search_reply :: "string \<Rightarrow> string \<Rightarrow> response" where
  "search_reply i t = \<lparr>response_id = i, output_list = [ToolCall, Message [OutputText t]]\<rparr>"

definition always :: "response \<Rightarrow> gateway" where
  "always resp log req = Inr resp"

definition scripted :: "response list \<Rightarrow> gateway" where
  "scripted replies log req =
     (if length log < length replies then Inr (replies ! length log) else Inl APIError)"

definition research_replies :: "response list" where
  \<open>research_replies =
     [search_reply ''s1'' ''first result'',
      message_reply ''e1'' ''No'',
      message_reply ''m1'' ''["a", "b"]'',
      search_reply ''s2'' ''result a'',
      search_reply ''s3'' ''result b'',
      message_reply ''e2'' ''Yes'']\<close>

definition session_replies :: "response list" where
  \<open>session_replies =
     message_reply ''p1'' ''{"goal": "Explain", "queries": ["q1"]}''
       # research_replies @ [message_reply ''f1'' ''# Report [1]'']\<close>

definition example_collected :: "artifact list" where
  "example_collected =
     [\<lparr>query = JString ''a'', resp_id = ''result a''\<rparr>,
      \<lparr>query = JString ''b'', resp_id = ''result b''\<rparr>]"

section \<open>Properties of the string operations\<close>

lemma py_in_sublist: "py_in sub s = sublist sub s"
  by (induction s) (auto simp: sublist_Cons_right)

lemma lower_char_eq_iff:
  assumes l: "0x61 \<le> (of_char l :: nat)" "(of_char l :: nat) \<le> 0x7A"
      and u: "(of_char u :: nat) + 0x20 = of_char l"
  shows "lower_char c = l \<longleftrightarrow> c = l \<or> c = u"
proof -
  have inj: "a = b \<longleftrightarrow> (of_char a :: nat) = of_char b" for a b :: char
    by simp
  show ?thesis
  proof (cases "0x41 \<le> (of_char c :: nat) \<and> (of_char c :: nat) \<le> 0x5A")
    case True
    then have "(of_char (lower_char c) :: nat) = of_char c + 0x20"
      by (simp add: lower_char_def)
    then have "lower_char c = l \<longleftrightarrow> (of_char c :: nat) + 0x20 = of_char l"
      by (subst inj) simp
    also have "\<dots> \<longleftrightarrow> (of_char c :: nat) = of_char u"
      using u by arith
    also have "\<dots> \<longleftrightarrow> c = u"
      by simp
    finally have "lower_char c = l \<longleftrightarrow> c = u" .
    moreover have "c \<noteq> l"
      using True l by auto
    ultimately show ?thesis by simp
  next
    case False
    then have "lower_char c = c" by (auto simp: lower_char_def)
    moreover have "c \<noteq> u"
      using False l u by auto
    ultimately show ?thesis by auto
  qed
qed

lemma lower_char_y: "lower_char c = CHR ''y'' \<longleftrightarrow> c = CHR ''y'' \<or> c = CHR ''Y''"
  by (rule lower_char_eq_iff) simp_all

lemma lower_char_e: "lower_char c = CHR ''e'' \<longleftrightarrow> c = CHR ''e'' \<or> c = CHR ''E''"
  by (rule lower_char_eq_iff) simp_all

lemma lower_char_s: "lower_char c = CHR ''s'' \<longleftrightarrow> c = CHR ''s'' \<or> c = CHR ''S''"
  by (rule lower_char_eq_iff) simp_all

lemma sublist_yes_lower:
  "sublist ''yes'' (lower reply) \<longleftrightarrow>
     (\<exists>pre a b c post. reply = pre @ [a, b, c] @ post \<and> a \<in> {CHR ''y'', CHR ''Y''}
        \<and> b \<in> {CHR ''e'', CHR ''E''} \<and> c \<in> {CHR ''s'', CHR ''S''})"
  (is "?lhs \<longleftrightarrow> ?rhs")
proof
  assume ?lhs
  then obtain ps ss where eq: "map lower_char reply = ps @ ''yes'' @ ss"
    by (auto simp: sublist_def lower_def)
  then obtain pre rest where r: "reply = pre @ rest" "map lower_char rest = ''yes'' @ ss"
    by (auto simp: map_eq_append_conv)
  then obtain a b c post where abc: "rest = a # b # c # post" "lower_char a = CHR ''y''"
     "lower_char b = CHR ''e''" "lower_char c = CHR ''s''"
    by (auto simp: map_eq_Cons_conv)
  have "reply = pre @ [a, b, c] @ post"
    using r abc by simp
  moreover have "a \<in> {CHR ''y'', CHR ''Y''}" "b \<in> {CHR ''e'', CHR ''E''}" "c \<in> {CHR ''s'', CHR ''S''}"
    using abc by (simp_all add: lower_char_y lower_char_e lower_char_s)
  ultimately show ?rhs by blast
next
  assume ?rhs
  then obtain pre a b c post where "reply = pre @ [a, b, c] @ post"
     "lower_char a = CHR ''y''" "lower_char b = CHR ''e''" "lower_char c = CHR ''s''"
    by (auto simp: lower_char_y lower_char_e lower_char_s)
  then have "lower reply = map lower_char pre @ ''yes'' @ map lower_char post"
    by (simp add: lower_def)
  then show ?lhs
    unfolding sublist_def by blast
qed


section \<open>Properties of the gateway calls\<close>

lemma io_bind_create:
  "io_bind (responses_create client req) f log =
     (case client log req of Inl e \<Rightarrow> (Inl e, log @ [req]) | Inr resp \<Rightarrow> f resp (log @ [req]))"
  by (simp add: io_bind_def responses_create_def split: sum.splits)

lemma io_bind_lift:
  "io_bind (io_lift r) f log = (case r of Inl e \<Rightarrow> (Inl e, log) | Inr x \<Rightarrow> f x log)"
  by (simp add: io_bind_def io_lift_def split: sum.splits)

lemma evaluate_progress_reply:
  assumes "client log (evaluate_request DEVELOPER_MESSAGE goal collected) = Inr review"
      and "output_text review 0 = Inr reply"
  shows "evaluate_progress client goal collected log =
           (Inr (sublist ''yes'' (lower reply)),
            log @ [evaluate_request DEVELOPER_MESSAGE goal collected])"
  using assms
  by (simp add: evaluate_progress_def io_bind_create io_bind_lift io_return_def py_in_sublist)

lemma evaluate_reply:
  assumes "client log (evaluate_request developer_message goal collected) = Inr review"
      and "output_text review 0 = Inr reply"
  shows "evaluate client collected goal log =
           (Inr (sublist ''yes'' (lower reply)),
            log @ [evaluate_request developer_message goal collected])"
  using assms
  by (simp add: evaluate_def io_bind_create io_bind_lift io_return_def py_in_sublist)

lemma output_text_message_reply: "output_text (message_reply i t) 0 = Inr t"
  by (simp add: output_text_def message_reply_def index_def content_def text_of_def)

lemma output_text_search_reply: "output_text (search_reply i t) 1 = Inr t"
  by (simp add: output_text_def search_reply_def index_def content_def text_of_def)

lemma run_search_result:
  "run_search client q prev_id log =
     (case client log (search_request DEVELOPER_MESSAGE q prev_id) of
        Inl e \<Rightarrow> Inl e
      | Inr resp \<Rightarrow>
          (case output_text resp 1 of Inl e \<Rightarrow> Inl e | Inr t \<Rightarrow> Inr \<lparr>query = q, resp_id = t\<rparr>),
      log @ [search_request DEVELOPER_MESSAGE q prev_id])"
  by (simp add: run_search_def io_bind_create io_bind_lift io_return_def split: sum.splits)

lemma run_search_st_result:
  "run_search_st client q prev_id log =
     (case client log (search_request developer_message q prev_id) of
        Inl e \<Rightarrow> Inl e
      | Inr resp \<Rightarrow>
          (case output_text resp 1 of Inl e \<Rightarrow> Inl e | Inr t \<Rightarrow> Inr \<lparr>query = q, resp_id = t\<rparr>),
      log @ [search_request developer_message q prev_id])"
  by (simp add: run_search_st_def io_bind_create io_bind_lift io_return_def split: sum.splits)

lemma output_text_short:
  "length (output_list resp) \<le> i \<Longrightarrow> output_text resp i = Inl IndexError"
  by (simp add: output_text_def index_def)

lemma output_text_empty_content:
  "i < length (output_list resp) \<Longrightarrow> output_list resp ! i = Message [] \<Longrightarrow>
     output_text resp i = Inl IndexError"
  by (simp add: output_text_def index_def content_def)

lemma output_text_Inr_iff:
  "output_text resp i = Inr t \<longleftrightarrow>
     (i < length (output_list resp) \<and> (\<exists>rest. output_list resp ! i = Message (OutputText t # rest)))"
  by (auto simp: output_text_def index_def content_def text_of_def
           split: sum.splits output_item.splits content_part.splits list.splits if_splits)
     (metis list.exhaust nth_Cons_0 list.size(3) not_less_zero length_greater_0_conv)+

section \<open>Properties of the research loop of \<open>app.py\<close>\<close>

lemma search_each_result:
  "search_each client qs prev_id c0 log = (Inr c, log') \<Longrightarrow>
     \<exists>new. c = c0 @ new \<and> map query new = qs
       \<and> log' = log @ map (\<lambda>q. search_request DEVELOPER_MESSAGE q prev_id) qs
       \<and> (\<forall>i<length qs. \<exists>resp.
             client (log @ map (\<lambda>q. search_request DEVELOPER_MESSAGE q prev_id) (take i qs))
                    (search_request DEVELOPER_MESSAGE (qs ! i) prev_id) = Inr resp
           \<and> output_text resp 1 = Inr (resp_id (new ! i)))"
proof (induction qs arbitrary: c0 log)
  case Nil
  then show ?case by (simp add: io_return_def)
next
  case (Cons q qs)
  let ?sr = "\<lambda>q. search_request DEVELOPER_MESSAGE q prev_id"
  from Cons.prems obtain resp t where
    resp: "client log (?sr q) = Inr resp" "output_text resp 1 = Inr t"
    and rest: "search_each client qs prev_id (c0 @ [\<lparr>query = q, resp_id = t\<rparr>]) (log @ [?sr q]) = (Inr c, log')"
    by (auto simp: io_bind_def run_search_result split: sum.splits)
  from Cons.IH[OF rest] obtain new where new:
    "c = (c0 @ [\<lparr>query = q, resp_id = t\<rparr>]) @ new" "map query new = qs"
    "log' = (log @ [?sr q]) @ map ?sr qs"
    "\<forall>i<length qs. \<exists>resp. client ((log @ [?sr q]) @ map ?sr (take i qs)) (?sr (qs ! i)) = Inr resp
           \<and> output_text resp 1 = Inr (resp_id (new ! i))"
    by blast
  let ?new = "\<lparr>query = q, resp_id = t\<rparr> # new"
  have "\<exists>resp. client (log @ map ?sr (take i (q # qs))) (?sr ((q # qs) ! i)) = Inr resp
           \<and> output_text resp 1 = Inr (resp_id (?new ! i))" if "i < length (q # qs)" for i
  proof (cases i)
    case 0
    then show ?thesis using resp by simp
  next
    case (Suc j)
    then show ?thesis using new(4) that by simp
  qed
  then show ?case
    using new(1,2,3) by (intro exI[of _ ?new]) simp
qed

lemma search_each_log:
  "search_each client qs prev_id c0 log = (r, log') \<Longrightarrow>
     \<exists>n\<le>length qs. log' = log @ map (\<lambda>q. search_request DEVELOPER_MESSAGE q prev_id) (take n qs)"
proof (induction qs arbitrary: c0 log)
  case Nil
  then show ?case by (simp add: io_return_def)
next
  case (Cons q qs)
  let ?sr = "\<lambda>q. search_request DEVELOPER_MESSAGE q prev_id"
  show ?case
  proof (cases "fst (run_search client q prev_id log)")
    case (Inl e)
    then have "log' = log @ map ?sr (take 1 (q # qs))"
      using Cons.prems by (auto simp: io_bind_def run_search_result split: sum.splits)
    then show ?thesis by (intro exI[of _ 1]) simp
  next
    case (Inr a)
    then have "search_each client qs prev_id (c0 @ [a]) (log @ [?sr q]) = (r, log')"
      using Cons.prems by (auto simp: io_bind_def run_search_result split: sum.splits)
    from Cons.IH[OF this] obtain n where "n \<le> length qs" "log' = (log @ [?sr q]) @ map ?sr (take n qs)"
      by blast
    then show ?thesis by (intro exI[of _ "Suc n"]) simp
  qed
qed

lemma evaluate_progress_log:
  "evaluate_progress client goal c log = (r, log') \<Longrightarrow>
     log' = log @ [evaluate_request DEVELOPER_MESSAGE goal c]"
  by (auto simp: evaluate_progress_def io_bind_create io_bind_lift io_return_def split: sum.splits)

lemma conduct_research_body_Break:
  assumes "conduct_research_body client goal prev_id queries c0 log = (Inr (Break c), log')"
  shows "\<exists>qs log1. py_iter queries = Inr qs
           \<and> search_each client qs prev_id c0 log = (Inr c, log1)
           \<and> evaluate_progress client goal c log1 = (Inr True, log')"
  using assms
  by (auto simp: conduct_research_body_def io_bind_def io_lift_def io_return_def responses_create_def
           split: sum.splits prod.splits if_splits)

lemma conduct_research_body_Continue:
  assumes "conduct_research_body client goal prev_id queries c0 log = (Inr (Continue queries' c'), log')"
  shows "c' = [] \<and> (\<exists>qs c log1 log2 more reply. py_iter queries = Inr qs
           \<and> search_each client qs prev_id c0 log = (Inr c, log1)
           \<and> evaluate_progress client goal c log1 = (Inr False, log2)
           \<and> client log2 (more_request DEVELOPER_MESSAGE goal prev_id c) = Inr more
           \<and> output_text more 0 = Inr reply \<and> json_loads reply = Inr queries'
           \<and> log' = log2 @ [more_request DEVELOPER_MESSAGE goal prev_id c])"
  using assms
  by (auto simp: conduct_research_body_def io_bind_def io_lift_def io_return_def responses_create_def
           split: sum.splits prod.splits if_splits)

lemma conduct_research_body_log:
  assumes "conduct_research_body client goal prev_id queries c0 log = (r, log')"
  shows "\<exists>reqs. log' = log @ reqs
           \<and> (\<forall>req\<in>set reqs. req_tools req \<noteq> None \<longrightarrow> req_previous_response_id req = Some prev_id)"
proof (cases "py_iter queries")
  case (Inl e)
  then have "log' = log" using assms
    by (simp add: conduct_research_body_def io_bind_lift)
  then show ?thesis by simp
next
  case (Inr qs)
  let ?sr = "\<lambda>q. search_request DEVELOPER_MESSAGE q prev_id"
  obtain r1 log1 where s: "search_each client qs prev_id c0 log = (r1, log1)"
    by (cases "search_each client qs prev_id c0 log")
  then obtain n where n: "log1 = log @ map ?sr (take n qs)"
    using search_each_log by blast
  have "\<exists>rest. log' = log1 @ rest \<and> (\<forall>req\<in>set rest. req_tools req = None)"
  proof (cases r1)
    case (Inl e)
    then show ?thesis using assms Inr s
      by (simp add: conduct_research_body_def io_lift_def io_bind_def)
  next
    case c: (Inr c)
    obtain r2 log2 where e: "evaluate_progress client goal c log1 = (r2, log2)"
      by (cases "evaluate_progress client goal c log1")
    then have log2: "log2 = log1 @ [evaluate_request DEVELOPER_MESSAGE goal c]"
      by (rule evaluate_progress_log)
    have "log' = log2 \<or> log' = log2 @ [more_request DEVELOPER_MESSAGE goal prev_id c]"
      using assms Inr s c e
      by (auto simp: conduct_research_body_def io_bind_lift io_bind_def io_return_def io_lift_def
            responses_create_def split: sum.splits if_splits)
    then show ?thesis
      using log2 by (auto simp: evaluate_request_def more_request_def)
  qed
  then obtain rest where "log' = log @ (map ?sr (take n qs) @ rest)" "\<forall>req\<in>set rest. req_tools req = None"
    using n by auto
  moreover have "\<forall>req\<in>set (map ?sr (take n qs)). req_previous_response_id req = Some prev_id"
    by (auto simp: search_request_def)
  ultimately show ?thesis
    by (intro exI[of _ "map ?sr (take n qs) @ rest"]) auto
qed

lemma conduct_research_loop_positive:
  assumes "conduct_research_loop client goal prev_id queries c0 log = Some y"
  shows "\<forall>c log'. y = (Inr c, log') \<longrightarrow>
           (\<exists>log0. prefix log log0 \<and> evaluate_progress client goal c log0 = (Inr True, log'))"
proof (rule conduct_research_loop.raw_induct
    [where P = "\<lambda>client goal prev_id queries c0 log y. \<forall>c log'. y = (Inr c, log') \<longrightarrow>
           (\<exists>log0. prefix log log0 \<and> evaluate_progress client goal c log0 = (Inr True, log'))",
     OF _ assms], goal_cases)
  case (1 f client goal prev_id queries c0 log y)
  show ?case
  proof (intro allI impI)
    fix c log' assume y: "y = (Inr c, log')"
    obtain r log1 where b: "conduct_research_body client goal prev_id queries c0 log = (r, log1)"
      by (cases "conduct_research_body client goal prev_id queries c0 log")
    from conduct_research_body_log[OF b] have pre: "prefix log log1"
      by (auto simp: prefix_def)
    show "\<exists>log0. prefix log log0 \<and> evaluate_progress client goal c log0 = (Inr True, log')"
    proof (cases r)
      case (Inl e)
      then show ?thesis using 1(2) b y by simp
    next
      case (Inr ex)
      show ?thesis
      proof (cases ex)
        case (Break c')
        then have "c' = c" "log1 = log'" using 1(2) b y Inr by simp_all
        with conduct_research_body_Break[of client goal prev_id queries c0 log c log'] b Inr Break
        obtain qs l1 where "search_each client qs prev_id c0 log = (Inr c, l1)"
          "evaluate_progress client goal c l1 = (Inr True, log')"
          by auto
        moreover from this(1) have "prefix log l1"
          using search_each_log[of client qs prev_id c0 log "Inr c" l1] by (auto simp: prefix_def)
        ultimately show ?thesis by blast
      next
        case (Continue q' c')
        then have "f client goal prev_id q' c' log1 = Some y"
          using 1(2) b Inr by simp
        from 1(1)[OF this] y obtain log0 where "prefix log1 log0"
          "evaluate_progress client goal c log0 = (Inr True, log')"
          by blast
        with pre show ?thesis
          using prefix_order.order_trans by blast
      qed
    qed
  qed
qed

section \<open>Properties of the research loop of \<open>streamlit_app.py\<close>\<close>

lemma search_each_st_result:
  "search_each_st client qs prev_id c0 log = (Inr c, log') \<Longrightarrow>
     \<exists>new. c = c0 @ new \<and> map query new = qs
       \<and> log' = log @ map (\<lambda>q. search_request developer_message q prev_id) qs
       \<and> (\<forall>i<length qs. \<exists>resp.
             client (log @ map (\<lambda>q. search_request developer_message q prev_id) (take i qs))
                    (search_request developer_message (qs ! i) prev_id) = Inr resp
           \<and> output_text resp 1 = Inr (resp_id (new ! i)))"
proof (induction qs arbitrary: c0 log)
  case Nil
  then show ?case by (simp add: io_return_def)
next
  case (Cons q qs)
  let ?sr = "\<lambda>q. search_request developer_message q prev_id"
  from Cons.prems obtain resp t where
    resp: "client log (?sr q) = Inr resp" "output_text resp 1 = Inr t"
    and rest: "search_each_st client qs prev_id (c0 @ [\<lparr>query = q, resp_id = t\<rparr>]) (log @ [?sr q]) = (Inr c, log')"
    by (auto simp: io_bind_def run_search_st_result split: sum.splits)
  from Cons.IH[OF rest] obtain new where new:
    "c = (c0 @ [\<lparr>query = q, resp_id = t\<rparr>]) @ new" "map query new = qs"
    "log' = (log @ [?sr q]) @ map ?sr qs"
    "\<forall>i<length qs. \<exists>resp. client ((log @ [?sr q]) @ map ?sr (take i qs)) (?sr (qs ! i)) = Inr resp
           \<and> output_text resp 1 = Inr (resp_id (new ! i))"
    by blast
  let ?new = "\<lparr>query = q, resp_id = t\<rparr> # new"
  have "\<exists>resp. client (log @ map ?sr (take i (q # qs))) (?sr ((q # qs) ! i)) = Inr resp
           \<and> output_text resp 1 = Inr (resp_id (?new ! i))" if "i < length (q # qs)" for i
  proof (cases i)
    case 0
    then show ?thesis using resp by simp
  next
    case (Suc j)
    then show ?thesis using new(4) that by simp
  qed
  then show ?case
    using new(1,2,3) by (intro exI[of _ ?new]) simp
qed

lemma search_each_st_log:
  "search_each_st client qs prev_id c0 log = (r, log') \<Longrightarrow>
     \<exists>n\<le>length qs. log' = log @ map (\<lambda>q. search_request developer_message q prev_id) (take n qs)"
proof (induction qs arbitrary: c0 log)
  case Nil
  then show ?case by (simp add: io_return_def)
next
  case (Cons q qs)
  let ?sr = "\<lambda>q. search_request developer_message q prev_id"
  show ?case
  proof (cases "fst (run_search_st client q prev_id log)")
    case (Inl e)
    then have "log' = log @ map ?sr (take 1 (q # qs))"
      using Cons.prems by (auto simp: io_bind_def run_search_st_result split: sum.splits)
    then show ?thesis by (intro exI[of _ 1]) simp
  next
    case (Inr a)
    then have "search_each_st client qs prev_id (c0 @ [a]) (log @ [?sr q]) = (r, log')"
      using Cons.prems by (auto simp: io_bind_def run_search_st_result split: sum.splits)
    from Cons.IH[OF this] obtain n where "n \<le> length qs" "log' = (log @ [?sr q]) @ map ?sr (take n qs)"
      by blast
    then show ?thesis by (intro exI[of _ "Suc n"]) simp
  qed
qed

lemma evaluate_log:
  "evaluate client c goal log = (r, log') \<Longrightarrow>
     log' = log @ [evaluate_request developer_message goal c]"
  by (auto simp: evaluate_def io_bind_create io_bind_lift io_return_def split: sum.splits)

lemma perform_research_body_Break:
  assumes "perform_research_body client goal prev_id queries c0 log = (Inr (Break c), log')"
  shows "\<exists>qs log1. py_iter queries = Inr qs
           \<and> search_each_st client qs prev_id c0 log = (Inr c, log1)
           \<and> evaluate client c goal log1 = (Inr True, log')"
  using assms
  by (auto simp: perform_research_body_def io_bind_def io_lift_def io_return_def responses_create_def
           split: sum.splits prod.splits if_splits)

lemma perform_research_body_Continue:
  assumes "perform_research_body client goal prev_id queries c0 log = (Inr (Continue queries' c'), log')"
  shows "c' = [] \<and> (\<exists>qs c log1 log2 more reply. py_iter queries = Inr qs
           \<and> search_each_st client qs prev_id c0 log = (Inr c, log1)
           \<and> evaluate client c goal log1 = (Inr False, log2)
           \<and> client log2 (more_request developer_message goal prev_id c) = Inr more
           \<and> output_text more 0 = Inr reply \<and> json_loads reply = Inr queries'
           \<and> log' = log2 @ [more_request developer_message goal prev_id c])"
  using assms
  by (auto simp: perform_research_body_def io_bind_def io_lift_def io_return_def responses_create_def
           split: sum.splits prod.splits if_splits)

lemma perform_research_body_log:
  assumes "perform_research_body client goal prev_id queries c0 log = (r, log')"
  shows "\<exists>reqs. log' = log @ reqs
           \<and> (\<forall>req\<in>set reqs. req_tools req \<noteq> None \<longrightarrow> req_previous_response_id req = Some prev_id)"
proof (cases "py_iter queries")
  case (Inl e)
  then have "log' = log" using assms
    by (simp add: perform_research_body_def io_bind_lift)
  then show ?thesis by simp
next
  case (Inr qs)
  let ?sr = "\<lambda>q. search_request developer_message q prev_id"
  obtain r1 log1 where s: "search_each_st client qs prev_id c0 log = (r1, log1)"
    by (cases "search_each_st client qs prev_id c0 log")
  then obtain n where n: "log1 = log @ map ?sr (take n qs)"
    using search_each_st_log by blast
  have "\<exists>rest. log' = log1 @ rest \<and> (\<forall>req\<in>set rest. req_tools req = None)"
  proof (cases r1)
    case (Inl e)
    then show ?thesis using assms Inr s
      by (simp add: perform_research_body_def io_lift_def io_bind_def)
  next
    case c: (Inr c)
    obtain r2 log2 where e: "evaluate client c goal log1 = (r2, log2)"
      by (cases "evaluate client c goal log1")
    then have log2: "log2 = log1 @ [evaluate_request developer_message goal c]"
      by (rule evaluate_log)
    have "log' = log2 \<or> log' = log2 @ [more_request developer_message goal prev_id c]"
      using assms Inr s c e
      by (auto simp: perform_research_body_def io_bind_lift io_bind_def io_return_def io_lift_def
            responses_create_def split: sum.splits if_splits)
    then show ?thesis
      using log2 by (auto simp: evaluate_request_def more_request_def)
  qed
  then obtain rest where "log' = log @ (map ?sr (take n qs) @ rest)" "\<forall>req\<in>set rest. req_tools req = None"
    using n by auto
  moreover have "\<forall>req\<in>set (map ?sr (take n qs)). req_previous_response_id req = Some prev_id"
    by (auto simp: search_request_def)
  ultimately show ?thesis
    by (intro exI[of _ "map ?sr (take n qs) @ rest"]) auto
qed

lemma perform_research_loop_positive:
  assumes "perform_research_loop client goal prev_id queries c0 log = Some y"
  shows "\<forall>c log'. y = (Inr c, log') \<longrightarrow>
           (\<exists>log0. prefix log log0 \<and> evaluate client c goal log0 = (Inr True, log'))"
proof (rule perform_research_loop.raw_induct
    [where P = "\<lambda>client goal prev_id queries c0 log y. \<forall>c log'. y = (Inr c, log') \<longrightarrow>
           (\<exists>log0. prefix log log0 \<and> evaluate client c goal log0 = (Inr True, log'))",
     OF _ assms], goal_cases)
  case (1 f client goal prev_id queries c0 log y)
  show ?case
  proof (intro allI impI)
    fix c log' assume y: "y = (Inr c, log')"
    obtain r log1 where b: "perform_research_body client goal prev_id queries c0 log = (r, log1)"
      by (cases "perform_research_body client goal prev_id queries c0 log")
    from perform_research_body_log[OF b] have pre: "prefix log log1"
      by (auto simp: prefix_def)
    show "\<exists>log0. prefix log log0 \<and> evaluate client c goal log0 = (Inr True, log')"
    proof (cases r)
      case (Inl e)
      then show ?thesis using 1(2) b y by simp
    next
      case (Inr ex)
      show ?thesis
      proof (cases ex)
        case (Break c')
        then have "c' = c" "log1 = log'" using 1(2) b y Inr by simp_all
        with perform_research_body_Break[of client goal prev_id queries c0 log c log'] b Inr Break
        obtain qs l1 where "search_each_st client qs prev_id c0 log = (Inr c, l1)"
          "evaluate client c goal l1 = (Inr True, log')"
          by auto
        moreover from this(1) have "prefix log l1"
          using search_each_st_log[of client qs prev_id c0 log "Inr c" l1] by (auto simp: prefix_def)
        ultimately show ?thesis by blast
      next
        case (Continue q' c')
        then have "f client goal prev_id q' c' log1 = Some y"
          using 1(2) b Inr by simp
        from 1(1)[OF this] y obtain log0 where "prefix log1 log0"
          "evaluate client c goal log0 = (Inr True, log')"
          by blast
        with pre show ?thesis
          using prefix_order.order_trans by blast
      qed
    qed
  qed
qed


section \<open>Properties of the runs\<close>

lemma conduct_research_loop_log:
  assumes "conduct_research_loop client goal prev_id queries c0 log = Some y"
  shows "\<exists>reqs. snd y = log @ reqs
           \<and> (\<forall>req\<in>set reqs. req_tools req \<noteq> None \<longrightarrow> req_previous_response_id req = Some prev_id)"
proof (rule conduct_research_loop.raw_induct
    [where P = "\<lambda>client goal prev_id queries c0 log y. \<exists>reqs. snd y = log @ reqs
           \<and> (\<forall>req\<in>set reqs. req_tools req \<noteq> None \<longrightarrow> req_previous_response_id req = Some prev_id)",
     OF _ assms], goal_cases)
  case (1 f client goal prev_id queries c0 log y)
  obtain r log1 where b: "conduct_research_body client goal prev_id queries c0 log = (r, log1)"
    by (cases "conduct_research_body client goal prev_id queries c0 log")
  from conduct_research_body_log[OF b] obtain reqs where reqs: "log1 = log @ reqs"
    "\<forall>req\<in>set reqs. req_tools req \<noteq> None \<longrightarrow> req_previous_response_id req = Some prev_id"
    by blast
  show ?case
  proof (cases r)
    case (Inl e)
    then have "snd y = log1" using 1(2) b by auto
    with reqs show ?thesis by blast
  next
    case (Inr ex)
    show ?thesis
    proof (cases ex)
      case (Break c)
      then have "snd y = log1" using 1(2) b Inr by auto
      with reqs show ?thesis by blast
    next
      case (Continue q' c')
      then have "f client goal prev_id q' c' log1 = Some y"
        using 1(2) b Inr by simp
      from 1(1)[OF this] obtain reqs' where "snd y = log1 @ reqs'"
        "\<forall>req\<in>set reqs'. req_tools req \<noteq> None \<longrightarrow> req_previous_response_id req = Some prev_id"
        by blast
      with reqs show ?thesis
        by (intro exI[of _ "reqs @ reqs'"]) auto
    qed
  qed
qed

lemma create_plan_result:
  "create_plan client topic questions answers prev_id log =
     (case client log (plan_request topic questions answers prev_id) of
        Inl e \<Rightarrow> Inl e
      | Inr resp \<Rightarrow>
          (case output_text resp 0 of
             Inl e \<Rightarrow> Inl e
           | Inr reply \<Rightarrow>
               (case json_loads reply of
                  Inl e \<Rightarrow> Inl e
                | Inr plan \<Rightarrow>
                    (case getitem plan ''goal'' of
                       Inl e \<Rightarrow> Inl e
                     | Inr goal \<Rightarrow>
                         (case getitem plan ''queries'' of
                            Inl e \<Rightarrow> Inl e
                          | Inr queries \<Rightarrow> Inr (goal, queries, response_id resp))))),
      log @ [plan_request topic questions answers prev_id])"
  by (simp add: create_plan_def io_bind_create io_bind_lift io_return_def split: sum.splits)

lemma generate_final_report_result:
  "generate_final_report client goal collected log =
     (case client log (report_request DEVELOPER_MESSAGE goal collected) of
        Inl e \<Rightarrow> Inl e
      | Inr report \<Rightarrow> output_text report 0,
      log @ [report_request DEVELOPER_MESSAGE goal collected])"
  by (simp add: generate_final_report_def io_bind_create io_lift_def split: sum.splits)

lemma run_deep_research_log:
  assumes run: "run_deep_research client topic questions clarify_id answers events log
                  = Some (status, events', log')"
      and plan: "client log (plan_request topic questions answers clarify_id) = Inr resp"
  shows "\<exists>reqs. log' = log @ reqs
           \<and> (\<forall>req\<in>set reqs. req_tools req \<noteq> None
                 \<longrightarrow> req_previous_response_id req = Some (response_id resp))"
proof (cases "list_ex (\<lambda>a. strip a = []) answers")
  case True
  then have "log' = log" using run by (simp add: run_deep_research_def)
  then show ?thesis by simp
next
  case False
  let ?p = "plan_request topic questions answers clarify_id"
  have ptools: "req_tools ?p = None" by (simp add: plan_request_def)
  obtain r1 where c: "create_plan client topic questions answers clarify_id log = (r1, log @ [?p])"
    by (simp add: create_plan_result)
  show ?thesis
  proof (cases r1)
    case (Inl e)
    then have "log' = log @ [?p]" using run False c by (simp add: run_deep_research_def)
    then show ?thesis using ptools by (intro exI[of _ "[?p]"]) simp
  next
    case (Inr gqi)
    obtain goal queries goal_id where gqi: "gqi = (goal, queries, goal_id)"
      by (cases gqi)
    have gid: "goal_id = response_id resp"
      using c Inr gqi plan by (auto simp: create_plan_result split: sum.splits)
    show ?thesis
    proof (cases "conduct_research client goal queries goal_id (log @ [?p])")
      case None
      then show ?thesis using run False c Inr gqi by (simp add: run_deep_research_def)
    next
      case (Some y)
      obtain r2 log2 where y: "y = (r2, log2)" by (cases y)
      from conduct_research_loop_log[of client goal goal_id queries "[]" "log @ [?p]" y] Some
      obtain reqs where reqs: "log2 = (log @ [?p]) @ reqs"
        "\<forall>req\<in>set reqs. req_tools req \<noteq> None \<longrightarrow> req_previous_response_id req = Some goal_id"
        using y by (auto simp: conduct_research_def)
      show ?thesis
      proof (cases r2)
        case (Inl e)
        then have "log' = log2" using run False c Inr gqi Some y by (simp add: run_deep_research_def)
        then show ?thesis using reqs ptools gid by (intro exI[of _ "?p # reqs"]) auto
      next
        case collected: (Inr collected)
        let ?rep = "report_request DEVELOPER_MESSAGE goal collected"
        have "log' = log2 @ [?rep]"
          using run False c Inr gqi Some y collected
          by (auto simp: run_deep_research_def generate_final_report_result split: sum.splits)
        moreover have "req_tools ?rep = None" by (simp add: report_request_def)
        ultimately show ?thesis using reqs ptools gid
          by (intro exI[of _ "?p # reqs @ [?rep]"]) auto
      qed
    qed
  qed
qed

lemma perform_research_loop_log:
  assumes "perform_research_loop client goal prev_id queries c0 log = Some y"
  shows "\<exists>reqs. snd y = log @ reqs
           \<and> (\<forall>req\<in>set reqs. req_tools req \<noteq> None \<longrightarrow> req_previous_response_id req = Some prev_id)"
proof (rule perform_research_loop.raw_induct
    [where P = "\<lambda>client goal prev_id queries c0 log y. \<exists>reqs. snd y = log @ reqs
           \<and> (\<forall>req\<in>set reqs. req_tools req \<noteq> None \<longrightarrow> req_previous_response_id req = Some prev_id)",
     OF _ assms], goal_cases)
  case (1 f client goal prev_id queries c0 log y)
  obtain r log1 where b: "perform_research_body client goal prev_id queries c0 log = (r, log1)"
    by (cases "perform_research_body client goal prev_id queries c0 log")
  from perform_research_body_log[OF b] obtain reqs where reqs: "log1 = log @ reqs"
    "\<forall>req\<in>set reqs. req_tools req \<noteq> None \<longrightarrow> req_previous_response_id req = Some prev_id"
    by blast
  show ?case
  proof (cases r)
    case (Inl e)
    then have "snd y = log1" using 1(2) b by auto
    with reqs show ?thesis by blast
  next
    case (Inr ex)
    show ?thesis
    proof (cases ex)
      case (Break c)
      then have "snd y = log1" using 1(2) b Inr by auto
      with reqs show ?thesis by blast
    next
      case (Continue q' c')
      then have "f client goal prev_id q' c' log1 = Some y"
        using 1(2) b Inr by simp
      from 1(1)[OF this] obtain reqs' where "snd y = log1 @ reqs'"
        "\<forall>req\<in>set reqs'. req_tools req \<noteq> None \<longrightarrow> req_previous_response_id req = Some prev_id"
        by blast
      with reqs show ?thesis
        by (intro exI[of _ "reqs @ reqs'"]) auto
    qed
  qed
qed

lemma generate_plan_result:
  "generate_plan client topic questions answers prev_id log =
     (case client log (plan_request_st topic questions answers prev_id) of
        Inl e \<Rightarrow> Inl e
      | Inr resp \<Rightarrow>
          (case output_text resp 0 of
             Inl e \<Rightarrow> Inl e
           | Inr reply \<Rightarrow>
               (case json_loads reply of
                  Inl e \<Rightarrow> Inl e
                | Inr plan \<Rightarrow>
                    (case getitem plan ''goal'' of
                       Inl e \<Rightarrow> Inl e
                     | Inr goal \<Rightarrow>
                         (case getitem plan ''queries'' of
                            Inl e \<Rightarrow> Inl e
                          | Inr queries \<Rightarrow> Inr (goal, queries, response_id resp))))),
      log @ [plan_request_st topic questions answers prev_id])"
  by (simp add: generate_plan_def io_bind_create io_bind_lift io_return_def split: sum.splits)

lemma generate_report_result:
  "generate_report client goal collected log =
     (case client log (report_request developer_message goal collected) of
        Inl e \<Rightarrow> Inl e
      | Inr report \<Rightarrow> output_text report 0,
      log @ [report_request developer_message goal collected])"
  by (simp add: generate_report_def io_bind_create io_lift_def split: sum.splits)

lemma run_deep_research_st_log:
  assumes run: "run_deep_research_st client topic questions clarify_id answers events log
                  = Some (status, events', log')"
      and plan: "client log (plan_request_st topic questions answers clarify_id) = Inr resp"
  shows "\<exists>reqs. log' = log @ reqs
           \<and> (\<forall>req\<in>set reqs. req_tools req \<noteq> None
                 \<longrightarrow> req_previous_response_id req = Some (response_id resp))"
proof (cases "[] \<in> set answers")
  case True
  then have "log' = log" using run by (simp add: run_deep_research_st_def)
  then show ?thesis by simp
next
  case False
  let ?p = "plan_request_st topic questions answers clarify_id"
  have ptools: "req_tools ?p = None" by (simp add: plan_request_st_def)
  obtain r1 where c: "generate_plan client topic questions answers clarify_id log = (r1, log @ [?p])"
    by (simp add: generate_plan_result)
  show ?thesis
  proof (cases r1)
    case (Inl e)
    then have "log' = log @ [?p]" using run False c by (simp add: run_deep_research_st_def)
    then show ?thesis using ptools by (intro exI[of _ "[?p]"]) simp
  next
    case (Inr gqi)
    obtain goal queries goal_id where gqi: "gqi = (goal, queries, goal_id)"
      by (cases gqi)
    have gid: "goal_id = response_id resp"
      using c Inr gqi plan by (auto simp: generate_plan_result split: sum.splits)
    show ?thesis
    proof (cases "perform_research client goal queries goal_id (log @ [?p])")
      case None
      then show ?thesis using run False c Inr gqi by (simp add: run_deep_research_st_def)
    next
      case (Some y)
      obtain r2 log2 where y: "y = (r2, log2)" by (cases y)
      from perform_research_loop_log[of client goal goal_id queries "[]" "log @ [?p]" y] Some
      obtain reqs where reqs: "log2 = (log @ [?p]) @ reqs"
        "\<forall>req\<in>set reqs. req_tools req \<noteq> None \<longrightarrow> req_previous_response_id req = Some goal_id"
        using y by (auto simp: perform_research_def)
      show ?thesis
      proof (cases r2)
        case (Inl e)
        then have "log' = log2" using run False c Inr gqi Some y by (simp add: run_deep_research_st_def)
        then show ?thesis using reqs ptools gid by (intro exI[of _ "?p # reqs"]) auto
      next
        case collected: (Inr collected)
        let ?rep = "report_request developer_message goal collected"
        have "log' = log2 @ [?rep]"
          using run False c Inr gqi Some y collected
          by (auto simp: run_deep_research_st_def generate_report_result split: sum.splits)
        moreover have "req_tools ?rep = None" by (simp add: report_request_def)
        ultimately show ?thesis using reqs ptools gid
          by (intro exI[of _ "?p # reqs @ [?rep]"]) auto
      qed
    qed
  qed
qed


lemma run_deep_research_report:
  assumes run: "run_deep_research client topic questions clarify_id answers events log
                  = Some (Finished, events', log')"
  shows "\<exists>goal collected log0 log1.
           evaluate_progress client goal collected log0 = (Inr True, log1)
         \<and> log' = log1 @ [report_request DEVELOPER_MESSAGE goal collected]"
proof -
  have guard: "\<not> list_ex (\<lambda>a. strip a = []) answers"
    using run by (auto simp: run_deep_research_def)
  obtain r1 log1 where c: "create_plan client topic questions answers clarify_id log = (r1, log1)"
    by (cases "create_plan client topic questions answers clarify_id log")
  then obtain goal queries goal_id where r1: "r1 = Inr (goal, queries, goal_id)"
    using run guard by (cases r1) (auto simp: run_deep_research_def)
  obtain y where y: "conduct_research client goal queries goal_id log1 = Some y"
    using run guard c r1 by (cases "conduct_research client goal queries goal_id log1")
      (auto simp: run_deep_research_def)
  obtain r2 log2 where y2: "y = (r2, log2)" by (cases y)
  obtain collected where r2: "r2 = Inr collected"
    using run guard c r1 y y2 by (cases r2) (auto simp: run_deep_research_def)
  have "log' = log2 @ [report_request DEVELOPER_MESSAGE goal collected]"
    using run guard c r1 y y2 r2
    by (auto simp: run_deep_research_def generate_final_report_result split: sum.splits)
  moreover obtain log0 where "evaluate_progress client goal collected log0 = (Inr True, log2)"
    using conduct_research_loop_positive[of client goal goal_id queries "[]" log1 y] y y2 r2
    by (auto simp: conduct_research_def)
  ultimately show ?thesis by blast
qed

lemma run_deep_research_st_report:
  assumes run: "run_deep_research_st client topic questions clarify_id answers events log
                  = Some (Finished, events', log')"
  shows "\<exists>goal collected log0 log1.
           evaluate client collected goal log0 = (Inr True, log1)
         \<and> log' = log1 @ [report_request developer_message goal collected]"
proof -
  have guard: "\<not> [] \<in> set answers"
    using run by (auto simp: run_deep_research_st_def)
  obtain r1 log1 where c: "generate_plan client topic questions answers clarify_id log = (r1, log1)"
    by (cases "generate_plan client topic questions answers clarify_id log")
  then obtain goal queries goal_id where r1: "r1 = Inr (goal, queries, goal_id)"
    using run guard by (cases r1) (auto simp: run_deep_research_st_def)
  obtain y where y: "perform_research client goal queries goal_id log1 = Some y"
    using run guard c r1 by (cases "perform_research client goal queries goal_id log1")
      (auto simp: run_deep_research_st_def)
  obtain r2 log2 where y2: "y = (r2, log2)" by (cases y)
  obtain collected where r2: "r2 = Inr collected"
    using run guard c r1 y y2 by (cases r2) (auto simp: run_deep_research_st_def)
  have "log' = log2 @ [report_request developer_message goal collected]"
    using run guard c r1 y y2 r2
    by (auto simp: run_deep_research_st_def generate_report_result split: sum.splits)
  moreover obtain log0 where "evaluate client collected goal log0 = (Inr True, log2)"
    using perform_research_loop_positive[of client goal goal_id queries "[]" log1 y] y y2 r2
    by (auto simp: perform_research_def)
  ultimately show ?thesis by blast
qed

section \<open>The example runs\<close>

lemma example_conduct_research_body:
  "fst (conduct_research_body (scripted research_replies) (JString ''g'') ''p0''
          (JArray [JString ''q1'']) [] [])
     = Inr (Continue (JArray [JString ''a'', JString ''b'']) [])"
  by code_simp

lemma example_perform_research_body:
  "fst (perform_research_body (scripted research_replies) (JString ''g'') ''p0''
          (JArray [JString ''q1'']) [] [])
     = Inr (Continue (JArray [JString ''a'', JString ''b'']) [])"
  by code_simp

lemma output_text_search_reply_Suc: "output_text (search_reply i t) (Suc 0) = Inr t"
  using output_text_search_reply[of i t] by simp

lemma example_search_each:
  "length log = 3 \<Longrightarrow>
   fst (search_each (scripted research_replies) [JString ''a'', JString ''b''] ''p0'' [] log)
     = Inr example_collected"
  by (simp add: run_search_result io_bind_def io_return_def scripted_def research_replies_def
        output_text_search_reply_Suc example_collected_def)

lemma example_search_each_st:
  "length log = 3 \<Longrightarrow>
   fst (search_each_st (scripted research_replies) [JString ''a'', JString ''b''] ''p0'' [] log)
     = Inr example_collected"
  by (simp add: run_search_st_result io_bind_def io_return_def scripted_def research_replies_def
        output_text_search_reply_Suc example_collected_def)

lemma conduct_research_body_log_length:
  assumes "conduct_research_body client goal prev_id (JArray qs) c0 log
             = (Inr (Continue q' c'), log')"
  shows "length log' = length log + length qs + 2"
proof -
  from conduct_research_body_Continue[OF assms] obtain qs' c log1 log2 where
    it: "py_iter (JArray qs) = Inr qs'"
    and s: "search_each client qs' prev_id c0 log = (Inr c, log1)"
    and e: "evaluate_progress client goal c log1 = (Inr False, log2)"
    and l: "log' = log2 @ [more_request DEVELOPER_MESSAGE goal prev_id c]"
    by blast
  have "qs' = qs" using it by (simp add: py_iter_def)
  moreover have "length log1 = length log + length qs'"
    using search_each_result[OF s] by auto
  moreover have "length log2 = length log1 + 1"
    using evaluate_progress_log[OF e] by simp
  ultimately show ?thesis using l by simp
qed

lemma perform_research_body_log_length:
  assumes "perform_research_body client goal prev_id (JArray qs) c0 log
             = (Inr (Continue q' c'), log')"
  shows "length log' = length log + length qs + 2"
proof -
  from perform_research_body_Continue[OF assms] obtain qs' c log1 log2 where
    it: "py_iter (JArray qs) = Inr qs'"
    and s: "search_each_st client qs' prev_id c0 log = (Inr c, log1)"
    and e: "evaluate client c goal log1 = (Inr False, log2)"
    and l: "log' = log2 @ [more_request developer_message goal prev_id c]"
    by blast
  have "qs' = qs" using it by (simp add: py_iter_def)
  moreover have "length log1 = length log + length qs'"
    using search_each_st_result[OF s] by auto
  moreover have "length log2 = length log1 + 1"
    using evaluate_log[OF e] by simp
  ultimately show ?thesis using l by simp
qed

lemma example_conduct_research:
  "map_option fst (conduct_research (scripted research_replies) (JString ''g'')
          (JArray [JString ''q1'']) ''p0'' []) = Some (Inr example_collected)"
  by code_simp

lemma example_run_deep_research:
  "map_option fst (run_deep_research (scripted session_replies) ''topic'' [''Q1''] ''c0''
          [''A1''] [] []) = Some Finished"
  by code_simp

lemma example_perform_research:
  "map_option fst (perform_research (scripted research_replies) (JString ''g'')
          (JArray [JString ''q1'']) ''p0'' []) = Some (Inr example_collected)"
  by code_simp

lemma example_run_deep_research_st:
  "map_option fst (run_deep_research_st (scripted session_replies) ''topic'' [''Q1''] ''c0''
          [''A1''] [] []) = Some Finished"
  by code_simp

section \<open>The claims\<close>

text \<open>
  C4.  Whatever the text of the model's reply, \<open>evaluate_progress\<close> (and \<open>evaluate\<close> of
  the second script) returns \<open>True\<close> exactly when the lower-cased reply contains \<open>yes\<close>,
  that is, when the reply holds a \<open>y\<close>, an \<open>e\<close> and an \<open>s\<close> in a row, each in either case;
  every other reply gives \<open>False\<close>.
\<close>

theorem evaluate_yes_iff:
  assumes "client log (evaluate_request DEVELOPER_MESSAGE goal collected) = Inr review"
      and "output_text review 0 = Inr reply"
      and "client log (evaluate_request developer_message goal collected) = Inr review_st"
      and "output_text review_st 0 = Inr reply_st"
  shows "fst (evaluate_progress client goal collected log) = Inr (sublist ''yes'' (lower reply))
       \<and> fst (evaluate client collected goal log) = Inr (sublist ''yes'' (lower reply_st))
       \<and> (sublist ''yes'' (lower reply) \<longleftrightarrow>
            (\<exists>pre a b c post. reply = pre @ [a, b, c] @ post \<and> a \<in> {CHR ''y'', CHR ''Y''}
               \<and> b \<in> {CHR ''e'', CHR ''E''} \<and> c \<in> {CHR ''s'', CHR ''S''}))"
  using assms sublist_yes_lower[of reply]
  by (simp add: evaluate_progress_reply evaluate_reply)

theorem evaluate_yes_iff_witness:
  "fst (evaluate_progress (always (message_reply ''r1'' ''YES.'')) (JString ''g'') [] []) = Inr True
   \<and> fst (evaluate (always (message_reply ''r1'' ''YES.'')) [] (JString ''g'') []) = Inr True
   \<and> fst (evaluate_progress (always (message_reply ''r1'' ''Probably, in part'')) (JString ''g'') [] [])
       = Inr False"
proof -
  have "py_in ''yes'' (lower ''YES.'')"
    by code_simp
  then have yes: "sublist ''yes'' (lower ''YES.'')"
    by (simp add: py_in_sublist)
  have "\<not> py_in ''yes'' (lower ''Probably, in part'')"
    by code_simp
  then have hedged: "\<not> sublist ''yes'' (lower ''Probably, in part'')"
    by (simp add: py_in_sublist)
  show ?thesis
    using evaluate_yes_iff[of "always (message_reply ''r1'' ''YES.'')" "[]" "JString ''g''" "[]"
        "message_reply ''r1'' ''YES.''" "''YES.''" "message_reply ''r1'' ''YES.''" "''YES.''"]
      evaluate_yes_iff[of "always (message_reply ''r1'' ''Probably, in part'')" "[]" "JString ''g''" "[]"
        "message_reply ''r1'' ''Probably, in part''" "''Probably, in part''"
        "message_reply ''r1'' ''Probably, in part''" "''Probably, in part''"]
      yes hedged
    by (simp add: always_def output_text_message_reply)
qed

text \<open>
  C10.  \<open>run_search\<close> reads \<open>output[1].content[0].text\<close> with no guard: a reply with fewer
  than two output items, or whose second item is a message with an empty content list,
  ends the call with \<open>IndexError\<close>; it returns an artifact exactly when the second item is
  a message whose first content part is a text.
\<close>

theorem run_search_index_error:
  assumes "client log (search_request DEVELOPER_MESSAGE q prev_id) = Inr resp"
      and "client log (search_request developer_message q prev_id) = Inr resp_st"
  shows "(length (output_list resp) < 2 \<or> output_list resp ! 1 = Message []
            \<longrightarrow> fst (run_search client q prev_id log) = Inl IndexError)
       \<and> (length (output_list resp_st) < 2 \<or> output_list resp_st ! 1 = Message []
            \<longrightarrow> fst (run_search_st client q prev_id log) = Inl IndexError)
       \<and> ((\<exists>a. fst (run_search client q prev_id log) = Inr a) \<longleftrightarrow>
            (1 < length (output_list resp)
               \<and> (\<exists>t rest. output_list resp ! 1 = Message (OutputText t # rest))))
       \<and> ((\<exists>a. fst (run_search_st client q prev_id log) = Inr a) \<longleftrightarrow>
            (1 < length (output_list resp_st)
               \<and> (\<exists>t rest. output_list resp_st ! 1 = Message (OutputText t # rest))))"
proof -
  have short: "output_text r 1 = Inl IndexError"
    if "length (output_list r) < 2 \<or> output_list r ! 1 = Message []" for r
  proof (cases "length (output_list r) < 2")
    case True
    then show ?thesis by (simp add: output_text_short)
  next
    case False
    with that show ?thesis by (simp add: output_text_empty_content)
  qed
  have ok: "(\<exists>t. output_text r 1 = Inr t) \<longleftrightarrow>
      (1 < length (output_list r) \<and> (\<exists>t rest. output_list r ! 1 = Message (OutputText t # rest)))"
    for r
    by (auto simp: output_text_Inr_iff)
  have a: "(\<exists>a. fst (run_search client q prev_id log) = Inr a) \<longleftrightarrow> (\<exists>t. output_text resp 1 = Inr t)"
    using assms(1) by (auto simp: run_search_result split: sum.splits)
  have b: "(\<exists>a. fst (run_search_st client q prev_id log) = Inr a) \<longleftrightarrow> (\<exists>t. output_text resp_st 1 = Inr t)"
    using assms(2) by (auto simp: run_search_st_result split: sum.splits)
  show ?thesis
    using assms short[of resp] short[of resp_st] ok[of resp] ok[of resp_st] a b
    by (simp add: run_search_result run_search_st_result)
qed


theorem run_search_index_error_witness:
  "fst (run_search (always (message_reply ''r1'' ''an answer'')) (JString ''q1'') ''r0'' [])
     = Inl IndexError
   \<and> fst (run_search_st (always (message_reply ''r1'' ''an answer'')) (JString ''q1'') ''r0'' [])
     = Inl IndexError
   \<and> fst (run_search
        (always \<lparr>response_id = ''r1'', output_list = [ToolCall, Message []]\<rparr>)
        (JString ''q1'') ''r0'' []) = Inl IndexError"
  using run_search_index_error[of "always (message_reply ''r1'' ''an answer'')" "[]" "JString ''q1''"
      "''r0''" "message_reply ''r1'' ''an answer''" "message_reply ''r1'' ''an answer''"]
    run_search_index_error[of "always \<lparr>response_id = ''r1'', output_list = [ToolCall, Message []]\<rparr>"
      "[]" "JString ''q1''" "''r0''" "\<lparr>response_id = ''r1'', output_list = [ToolCall, Message []]\<rparr>"
      "\<lparr>response_id = ''r1'', output_list = [ToolCall, Message []]\<rparr>"]
  by (simp add: always_def message_reply_def)

text \<open>
  C1.  Whenever the research loop (\<open>conduct_research\<close>, \<open>perform_research\<close>) returns a
  Collected Set, that very list was the argument of a call of Evaluate that answered
  \<open>True\<close>, and that call was the last request the loop made: the loop returns only by a
  positive decision and nothing is added or removed after it.  In a run of \<open>main\<close> that
  reaches its end, the request of the Report stage follows that Evaluate call directly
  and carries the same list.
\<close>

theorem research_returns_evaluated_set:
  "(conduct_research client goal queries prev_id log = Some (Inr collected, log') \<longrightarrow>
      (\<exists>log0. prefix log log0
         \<and> evaluate_progress client goal collected log0 = (Inr True, log')
         \<and> log' = log0 @ [evaluate_request DEVELOPER_MESSAGE goal collected]))
   \<and> (run_deep_research client topic questions clarify_id answers events log
         = Some (Finished, events', log'') \<longrightarrow>
      (\<exists>goal' collected' log0 log1.
           evaluate_progress client goal' collected' log0 = (Inr True, log1)
         \<and> log'' = log1 @ [report_request DEVELOPER_MESSAGE goal' collected']))
   \<and> (perform_research client goal queries prev_id log = Some (Inr collected_st, log_st) \<longrightarrow>
      (\<exists>log0. prefix log log0
         \<and> evaluate client collected_st goal log0 = (Inr True, log_st)
         \<and> log_st = log0 @ [evaluate_request developer_message goal collected_st]))
   \<and> (run_deep_research_st client topic questions clarify_id answers events log
         = Some (Finished, events_st, log_st') \<longrightarrow>
      (\<exists>goal' collected' log0 log1.
           evaluate client collected' goal' log0 = (Inr True, log1)
         \<and> log_st' = log1 @ [report_request developer_message goal' collected']))"
proof (intro conjI impI)
  assume "conduct_research client goal queries prev_id log = Some (Inr collected, log')"
  then obtain log0 where l: "prefix log log0"
      "evaluate_progress client goal collected log0 = (Inr True, log')"
    using conduct_research_loop_positive[of client goal prev_id queries "[]" log "(Inr collected, log')"]
    by (auto simp: conduct_research_def)
  then show "\<exists>log0. prefix log log0
         \<and> evaluate_progress client goal collected log0 = (Inr True, log')
         \<and> log' = log0 @ [evaluate_request DEVELOPER_MESSAGE goal collected]"
    using evaluate_progress_log by blast
next
  assume "run_deep_research client topic questions clarify_id answers events log
            = Some (Finished, events', log'')"
  then show "\<exists>goal' collected' log0 log1.
           evaluate_progress client goal' collected' log0 = (Inr True, log1)
         \<and> log'' = log1 @ [report_request DEVELOPER_MESSAGE goal' collected']"
    by (rule run_deep_research_report)
next
  assume "perform_research client goal queries prev_id log = Some (Inr collected_st, log_st)"
  then obtain log0 where l: "prefix log log0"
      "evaluate client collected_st goal log0 = (Inr True, log_st)"
    using perform_research_loop_positive[of client goal prev_id queries "[]" log "(Inr collected_st, log_st)"]
    by (auto simp: perform_research_def)
  then show "\<exists>log0. prefix log log0
         \<and> evaluate client collected_st goal log0 = (Inr True, log_st)
         \<and> log_st = log0 @ [evaluate_request developer_message goal collected_st]"
    using evaluate_log by blast
next
  assume "run_deep_research_st client topic questions clarify_id answers events log
            = Some (Finished, events_st, log_st')"
  then show "\<exists>goal' collected' log0 log1.
           evaluate client collected' goal' log0 = (Inr True, log1)
         \<and> log_st' = log1 @ [report_request developer_message goal' collected']"
    by (rule run_deep_research_st_report)
qed

theorem research_returns_evaluated_set_witness:
  "(\<exists>log'. conduct_research (scripted research_replies) (JString ''g'') (JArray [JString ''q1''])
              ''p0'' [] = Some (Inr example_collected, log')
      \<and> (\<exists>log0. evaluate_progress (scripted research_replies) (JString ''g'') example_collected log0
                   = (Inr True, log')))
   \<and> (\<exists>events' log'' goal' collected' log0 log1.
         run_deep_research (scripted session_replies) ''topic'' [''Q1''] ''c0'' [''A1''] [] []
           = Some (Finished, events', log'')
       \<and> evaluate_progress (scripted session_replies) goal' collected' log0 = (Inr True, log1)
       \<and> log'' = log1 @ [report_request DEVELOPER_MESSAGE goal' collected'])
   \<and> (\<exists>log'. perform_research (scripted research_replies) (JString ''g'') (JArray [JString ''q1''])
              ''p0'' [] = Some (Inr example_collected, log')
      \<and> (\<exists>log0. evaluate (scripted research_replies) example_collected (JString ''g'') log0
                   = (Inr True, log')))
   \<and> (\<exists>events' log'' goal' collected' log0 log1.
         run_deep_research_st (scripted session_replies) ''topic'' [''Q1''] ''c0'' [''A1''] [] []
           = Some (Finished, events', log'')
       \<and> evaluate (scripted session_replies) collected' goal' log0 = (Inr True, log1)
       \<and> log'' = log1 @ [report_request developer_message goal' collected'])"
proof -
  have "map_option fst (conduct_research (scripted research_replies) (JString ''g'')
          (JArray [JString ''q1'']) ''p0'' []) = Some (Inr example_collected)"
    by (rule example_conduct_research)
  then obtain l1 where a: "conduct_research (scripted research_replies) (JString ''g'')
          (JArray [JString ''q1'']) ''p0'' [] = Some (Inr example_collected, l1)"
    by (cases "conduct_research (scripted research_replies) (JString ''g'')
          (JArray [JString ''q1'']) ''p0'' []") auto
  have "map_option fst (run_deep_research (scripted session_replies) ''topic'' [''Q1''] ''c0''
          [''A1''] [] []) = Some Finished"
    by (rule example_run_deep_research)
  then obtain e2 l2 where b: "run_deep_research (scripted session_replies) ''topic'' [''Q1''] ''c0''
          [''A1''] [] [] = Some (Finished, e2, l2)"
    by (cases "run_deep_research (scripted session_replies) ''topic'' [''Q1''] ''c0''
          [''A1''] [] []") auto
  have "map_option fst (perform_research (scripted research_replies) (JString ''g'')
          (JArray [JString ''q1'']) ''p0'' []) = Some (Inr example_collected)"
    by (rule example_perform_research)
  then obtain l3 where c: "perform_research (scripted research_replies) (JString ''g'')
          (JArray [JString ''q1'']) ''p0'' [] = Some (Inr example_collected, l3)"
    by (cases "perform_research (scripted research_replies) (JString ''g'')
          (JArray [JString ''q1'']) ''p0'' []") auto
  have "map_option fst (run_deep_research_st (scripted session_replies) ''topic'' [''Q1''] ''c0''
          [''A1''] [] []) = Some Finished"
    by (rule example_run_deep_research_st)
  then obtain e4 l4 where d: "run_deep_research_st (scripted session_replies) ''topic'' [''Q1''] ''c0''
          [''A1''] [] [] = Some (Finished, e4, l4)"
    by (cases "run_deep_research_st (scripted session_replies) ''topic'' [''Q1''] ''c0''
          [''A1''] [] []") auto
  note t = research_returns_evaluated_set
  from t[THEN conjunct1, rule_format, OF a]
  have A: "\<exists>log0. evaluate_progress (scripted research_replies) (JString ''g'') example_collected log0
                   = (Inr True, l1)"
    by blast
  from t[THEN conjunct2, THEN conjunct1, rule_format, OF b]
  have B: "\<exists>goal' collected' log0 log1.
       evaluate_progress (scripted session_replies) goal' collected' log0 = (Inr True, log1)
       \<and> l2 = log1 @ [report_request DEVELOPER_MESSAGE goal' collected']" .
  from t[THEN conjunct2, THEN conjunct2, THEN conjunct1, rule_format, OF c]
  have C: "\<exists>log0. evaluate (scripted research_replies) example_collected (JString ''g'') log0
                   = (Inr True, l3)"
    by blast
  from t[THEN conjunct2, THEN conjunct2, THEN conjunct2, rule_format, OF d]
  have D: "\<exists>goal' collected' log0 log1.
       evaluate (scripted session_replies) collected' goal' log0 = (Inr True, log1)
       \<and> l4 = log1 @ [report_request developer_message goal' collected']" .
  show ?thesis
    using a A b B c C d D by blast
qed

text \<open>
  C2.  An iteration of the loop that ends with a negative decision (and a replacement
  query set that parses) leaves \<open>collected\<close> empty, so the loop goes on as if started
  afresh with the replacement set.  The list the next iteration passes to Evaluate then
  holds exactly one artifact for each query of the replacement set, in order, each made
  from the reply to a search request of that iteration: nothing of the discarded batch
  is carried over.
\<close>

theorem negative_decision_discards:
  "(conduct_research_body client goal prev_id queries collected log
       = (Inr (Continue queries' collected'), log') \<longrightarrow>
      collected' = []
      \<and> (\<exists>c log1 log2. evaluate_progress client goal c log1 = (Inr False, log2))
      \<and> conduct_research_loop client goal prev_id queries collected log
          = conduct_research_loop client goal prev_id queries' [] log'
      \<and> (\<forall>qs c log1. py_iter queries' = Inr qs
             \<longrightarrow> search_each client qs prev_id collected' log' = (Inr c, log1)
             \<longrightarrow> map query c = qs
                 \<and> (\<forall>i<length qs. \<exists>resp.
                        client (log' @ map (\<lambda>q. search_request DEVELOPER_MESSAGE q prev_id) (take i qs))
                          (search_request DEVELOPER_MESSAGE (qs ! i) prev_id) = Inr resp
                      \<and> output_text resp 1 = Inr (resp_id (c ! i)))
                 \<and> (\<forall>r log2. conduct_research_body client goal prev_id queries' collected' log'
                               = (r, log2)
                       \<longrightarrow> prefix (log1 @ [evaluate_request DEVELOPER_MESSAGE goal c]) log2)))
   \<and> (perform_research_body client goal prev_id queries collected log
       = (Inr (Continue queries_st collected_st), log_st) \<longrightarrow>
      collected_st = []
      \<and> (\<exists>c log1 log2. evaluate client c goal log1 = (Inr False, log2))
      \<and> perform_research_loop client goal prev_id queries collected log
          = perform_research_loop client goal prev_id queries_st [] log_st
      \<and> (\<forall>qs c log1. py_iter queries_st = Inr qs
             \<longrightarrow> search_each_st client qs prev_id collected_st log_st = (Inr c, log1)
             \<longrightarrow> map query c = qs
                 \<and> (\<forall>i<length qs. \<exists>resp.
                        client (log_st @ map (\<lambda>q. search_request developer_message q prev_id) (take i qs))
                          (search_request developer_message (qs ! i) prev_id) = Inr resp
                      \<and> output_text resp 1 = Inr (resp_id (c ! i)))
                 \<and> (\<forall>r log2. perform_research_body client goal prev_id queries_st collected_st log_st
                               = (r, log2)
                       \<longrightarrow> prefix (log1 @ [evaluate_request developer_message goal c]) log2)))"
proof (intro conjI impI allI)
  assume b: "conduct_research_body client goal prev_id queries collected log
       = (Inr (Continue queries' collected'), log')"
  from conduct_research_body_Continue[OF b]
  show e: "collected' = []" and "\<exists>c log1 log2. evaluate_progress client goal c log1 = (Inr False, log2)"
    by blast+
  show "conduct_research_loop client goal prev_id queries collected log
          = conduct_research_loop client goal prev_id queries' [] log'"
    using b e by (subst conduct_research_loop.simps) simp
  fix qs c log1
  assume it: "py_iter queries' = Inr qs"
    and s: "search_each client qs prev_id collected' log' = (Inr c, log1)"
  from search_each_result[OF s] e show "map query c = qs"
    by auto
  show "\<exists>resp.
          client (log' @ map (\<lambda>q. search_request DEVELOPER_MESSAGE q prev_id) (take i qs))
            (search_request DEVELOPER_MESSAGE (qs ! i) prev_id) = Inr resp
        \<and> output_text resp 1 = Inr (resp_id (c ! i))" if "i < length qs" for i
    using search_each_result[OF s] e that by auto
  fix r log2
  assume b2: "conduct_research_body client goal prev_id queries' collected' log' = (r, log2)"
  obtain r3 where ev: "evaluate_progress client goal c log1
       = (r3, log1 @ [evaluate_request DEVELOPER_MESSAGE goal c])"
    using evaluate_progress_log[of client goal c log1]
    by (cases "evaluate_progress client goal c log1") auto
  show "prefix (log1 @ [evaluate_request DEVELOPER_MESSAGE goal c]) log2"
    using b2 it s ev
    by (auto simp: conduct_research_body_def io_bind_def io_lift_def io_return_def
          responses_create_def split: sum.splits if_splits prod.splits)
next
  assume b: "perform_research_body client goal prev_id queries collected log
       = (Inr (Continue queries_st collected_st), log_st)"
  from perform_research_body_Continue[OF b]
  show e: "collected_st = []" and "\<exists>c log1 log2. evaluate client c goal log1 = (Inr False, log2)"
    by blast+
  show "perform_research_loop client goal prev_id queries collected log
          = perform_research_loop client goal prev_id queries_st [] log_st"
    using b e by (subst perform_research_loop.simps) simp
  fix qs c log1
  assume it: "py_iter queries_st = Inr qs"
    and s: "search_each_st client qs prev_id collected_st log_st = (Inr c, log1)"
  from search_each_st_result[OF s] e show "map query c = qs"
    by auto
  show "\<exists>resp.
          client (log_st @ map (\<lambda>q. search_request developer_message q prev_id) (take i qs))
            (search_request developer_message (qs ! i) prev_id) = Inr resp
        \<and> output_text resp 1 = Inr (resp_id (c ! i))" if "i < length qs" for i
    using search_each_st_result[OF s] e that by auto
  fix r log2
  assume b2: "perform_research_body client goal prev_id queries_st collected_st log_st = (r, log2)"
  obtain r3 where ev: "evaluate client c goal log1
       = (r3, log1 @ [evaluate_request developer_message goal c])"
    using evaluate_log[of client c goal log1]
    by (cases "evaluate client c goal log1") auto
  show "prefix (log1 @ [evaluate_request developer_message goal c]) log2"
    using b2 it s ev
    by (auto simp: perform_research_body_def io_bind_def io_lift_def io_return_def
          responses_create_def split: sum.splits if_splits prod.splits)
qed


theorem negative_decision_discards_witness:
  "(\<exists>log' log1.
      conduct_research_body (scripted research_replies) (JString ''g'') ''p0''
          (JArray [JString ''q1'']) [] []
        = (Inr (Continue (JArray [JString ''a'', JString ''b'']) []), log')
    \<and> search_each (scripted research_replies) [JString ''a'', JString ''b''] ''p0'' [] log'
        = (Inr example_collected, log1)
    \<and> map query example_collected = [JString ''a'', JString ''b''])
   \<and> (\<exists>log' log1.
      perform_research_body (scripted research_replies) (JString ''g'') ''p0''
          (JArray [JString ''q1'']) [] []
        = (Inr (Continue (JArray [JString ''a'', JString ''b'']) []), log')
    \<and> search_each_st (scripted research_replies) [JString ''a'', JString ''b''] ''p0'' [] log'
        = (Inr example_collected, log1)
    \<and> map query example_collected = [JString ''a'', JString ''b''])"
proof -
  let ?gw = "scripted research_replies"
  let ?qs = "[JString ''a'', JString ''b'']"
  obtain l1 where a: "conduct_research_body ?gw (JString ''g'') ''p0'' (JArray [JString ''q1'']) [] []
        = (Inr (Continue (JArray ?qs) []), l1)"
    using example_conduct_research_body
    by (cases "conduct_research_body ?gw (JString ''g'') ''p0'' (JArray [JString ''q1'']) [] []") auto
  then have "length l1 = 3"
    by (auto dest: conduct_research_body_log_length)
  then obtain l2 where b: "search_each ?gw ?qs ''p0'' [] l1 = (Inr example_collected, l2)"
    using example_search_each[of l1]
    by (cases "search_each ?gw ?qs ''p0'' [] l1") auto
  obtain l3 where c: "perform_research_body ?gw (JString ''g'') ''p0'' (JArray [JString ''q1'']) [] []
        = (Inr (Continue (JArray ?qs) []), l3)"
    using example_perform_research_body
    by (cases "perform_research_body ?gw (JString ''g'') ''p0'' (JArray [JString ''q1'']) [] []") auto
  then have "length l3 = 3"
    by (auto dest: perform_research_body_log_length)
  then obtain l4 where d: "search_each_st ?gw ?qs ''p0'' [] l3 = (Inr example_collected, l4)"
    using example_search_each_st[of l3]
    by (cases "search_each_st ?gw ?qs ''p0'' [] l3") auto
  have it: "py_iter (JArray ?qs) = Inr ?qs"
    by (simp add: py_iter_def)
  note t = negative_decision_discards
  from t[THEN conjunct1, rule_format, OF a, THEN conjunct2, THEN conjunct2, THEN conjunct2,
         rule_format, OF it b]
  have A: "map query example_collected = ?qs" by blast
  from t[THEN conjunct2, rule_format, OF c, THEN conjunct2, THEN conjunct2, THEN conjunct2,
         rule_format, OF it d]
  have C: "map query example_collected = ?qs" by blast
  have P: "\<exists>log' log1.
      conduct_research_body ?gw (JString ''g'') ''p0'' (JArray [JString ''q1'']) [] []
        = (Inr (Continue (JArray ?qs) []), log')
    \<and> search_each ?gw ?qs ''p0'' [] log' = (Inr example_collected, log1)
    \<and> map query example_collected = ?qs"
    using a b A by (intro exI[of _ l1] exI[of _ l2]) simp
  have Q: "\<exists>log' log1.
      perform_research_body ?gw (JString ''g'') ''p0'' (JArray [JString ''q1'']) [] []
        = (Inr (Continue (JArray ?qs) []), log')
    \<and> search_each_st ?gw ?qs ''p0'' [] log' = (Inr example_collected, log1)
    \<and> map query example_collected = ?qs"
    using c d C by (intro exI[of _ l3] exI[of _ l4]) simp
  show ?thesis
    by (rule conjI[OF P Q])
qed


end
